theory Spec2Isabelle
  imports Main "HOL-Library.Word" "HOL-Library.Signed_Division" "HOL-Library.AList"
begin

section \<open>Values: \<^verbatim>\<open>lisp_cell\<close>\<close>

text \<open>
  \<^verbatim>\<open>lisp_int_t\<close> is \<^verbatim>\<open>int64_t\<close>: a 64-bit word, read as two's complement by \<open>sint\<close>.
  A \<^verbatim>\<open>proc_type\<close> is a pointer to one of the native functions that \<^verbatim>\<open>add_globals\<close>
  registers; the model names each of those addresses.
\<close>

type_synonym lisp_int_t = "64 word"

datatype proc_type =
    addr_proc_add | addr_proc_sub | addr_proc_mul | addr_proc_div
  | addr_proc_cmpgt | addr_proc_cmpge | addr_proc_cmplt | addr_proc_cmple
  | addr_proc_cmpeq | addr_proc_cmpne
  | addr_eval_begin | addr_eval_car | addr_eval_cdr | addr_eval_cons
  | addr_eval_define | addr_eval_if | addr_eval_list | addr_eval_setq

text \<open>
  The four cells built once by \<^verbatim>\<open>make_builtin_symbol\<close> (\<^verbatim>\<open>false_sexpr\<close>, \<^verbatim>\<open>true_sexpr\<close>,
  \<^verbatim>\<open>nil_sexpr\<close>, \<^verbatim>\<open>bad_sexpr\<close>). The code compares pointers against them, so they are
  kept apart from every other symbol cell: a symbol cell made by the reader from the
  text \<^verbatim>\<open>#f\<close> is \<open>Symbol ''#f''\<close>, another object than \<open>Sentinel sym_false\<close>.
\<close>

datatype builtin_symbol = sym_false | sym_true | sym_nil | sym_error

text \<open>
  The variant \<^verbatim>\<open>node\<close> of a \<^verbatim>\<open>lisp_cell\<close>, one constructor per alternative:
  \<^verbatim>\<open>lisp_int_t\<close>, \<^verbatim>\<open>double\<close> (its 64 bits), \<^verbatim>\<open>std::string\<close> (a symbol),
  \<^verbatim>\<open>const char *\<close> (a quoted string), \<^verbatim>\<open>proc_type\<close>, \<^verbatim>\<open>lisp_cells\<close> and \<^verbatim>\<open>lambda *\<close>
  (parameters, body and the address of the captured environment).
  A \<^verbatim>\<open>lisp_cell *\<close> is a \<open>lisp_cell option\<close>, \<open>None\<close> being \<^verbatim>\<open>nullptr\<close>. Cells are never
  modified after construction, and the only pointer comparisons of the code are against
  \<^verbatim>\<open>nullptr\<close> and the four sentinels.
\<close>

datatype lisp_cell =
    Integer lisp_int_t
  | Double "64 word"
  | Symbol string
  | Sentinel builtin_symbol
  | CString string
  | Proc proc_type
  | Cells "lisp_cell option" "lisp_cell option"
  | Lambda "lisp_cell option" "lisp_cell option" nat

fun builtin_name :: "builtin_symbol \<Rightarrow> string" where
  "builtin_name sym_false = ''#f''"
| "builtin_name sym_true = ''#t''"
| "builtin_name sym_nil = ''#nil''"
| "builtin_name sym_error = ''#error''"

definition false_sexpr :: lisp_cell where "false_sexpr = Sentinel sym_false"
definition true_sexpr :: lisp_cell where "true_sexpr = Sentinel sym_true"
definition nil_sexpr :: lisp_cell where "nil_sexpr = Sentinel sym_nil"
definition bad_sexpr :: lisp_cell where "bad_sexpr = Sentinel sym_error"

fun getValue_int :: "lisp_cell \<Rightarrow> lisp_int_t option" where
  "getValue_int (Integer n) = Some n"
| "getValue_int _ = None"

fun getValue_string :: "lisp_cell \<Rightarrow> string option" where
  "getValue_string (Symbol s) = Some s"
| "getValue_string (Sentinel b) = Some (builtin_name b)"
| "getValue_string _ = None"

fun getValue_proc :: "lisp_cell \<Rightarrow> proc_type option" where
  "getValue_proc (Proc p) = Some p"
| "getValue_proc _ = None"

fun isConstant :: "lisp_cell \<Rightarrow> bool" where
  "isConstant (Integer _) = True"
| "isConstant (Double _) = True"
| "isConstant (CString _) = True"
| "isConstant _ = False"

fun isLispCells :: "lisp_cell \<Rightarrow> bool" where
  "isLispCells (Cells _ _) = True"
| "isLispCells _ = False"

definition isAtom :: "lisp_cell \<Rightarrow> bool" where
  "isAtom c = (\<not> isLispCells c)"

fun car :: "lisp_cell \<Rightarrow> lisp_cell option" where
  "car (Cells a d) = a"
| "car _ = None"

fun cdr :: "lisp_cell \<Rightarrow> lisp_cell option" where
  "cdr (Cells a d) = d"
| "cdr _ = None"

definition isSymbol :: "lisp_cell \<Rightarrow> string option" where
  "isSymbol c = getValue_string c"

section \<open>Program state: environments, diagnostics\<close>

text \<open>
  What a run can do besides returning a value. Undefined behaviour of the C++ (a member
  call through \<^verbatim>\<open>nullptr\<close>, the use of a deleted environment, a trapping division, a read
  past the end of the tokens or of the line) is an error value; \<open>OutOfFuel\<close> stands for a
  computation that has not returned within the given number of nested calls.
\<close>

datatype error =
    NullDereference
  | DanglingEnvironment
  | DivisionTrap
  | EndOfTokens
  | EndOfLine
  | OutOfFuel

text \<open>
  An \<^verbatim>\<open>environment\<close> object: its \<^verbatim>\<open>sym_map env_\<close> (the field \<open>env_map\<close>, keys unique) and
  its \<^verbatim>\<open>outer_\<close> pointer (the field \<open>outer_env\<close>, \<open>None\<close> for the null pointer).
  Environments are shared and updated in place, so they live in a store, addressed by
  numbers; \<^verbatim>\<open>new\<close> takes the next unused address and \<^verbatim>\<open>delete\<close> removes the object.
  The store, the global \<^verbatim>\<open>undefined_symbols\<close> and the lines written to \<^verbatim>\<open>std::cout\<close> form
  the state.
\<close>

type_synonym sym_map = "(string \<times> lisp_cell option) list"

record environment =
  env_map :: sym_map
  outer_env :: "nat option"

record state =
  heap :: "(nat \<times> environment) list"
  next_env :: nat
  undefined_symbols :: "string list"
  cout :: "string list"

type_synonym 'a result = "error + ('a \<times> state)"

type_synonym evaluator = "lisp_cell option \<Rightarrow> nat \<Rightarrow> state \<Rightarrow> lisp_cell option result"

fun FindSymbol :: "nat \<Rightarrow> nat \<Rightarrow> string \<Rightarrow> state \<Rightarrow> (lisp_cell option option) result" where
  "FindSymbol 0 this s st = Inl OutOfFuel"
| "FindSymbol (Suc k) this s st =
    (case map_of (heap st) this of
       None \<Rightarrow> Inl DanglingEnvironment
     | Some e \<Rightarrow>
        (case map_of (env_map e) s of
           Some c \<Rightarrow> Inr (Some c, st)
         | None \<Rightarrow>
            (case outer_env e of
               Some out \<Rightarrow> FindSymbol k out s st
             | None \<Rightarrow>
                 if s \<notin> set (undefined_symbols st)
                 then Inr (None, st\<lparr>undefined_symbols := undefined_symbols st @ [s],
                                     cout := cout st @ [''Undefined symbol '' @ [CHR 0x27] @ s @ [CHR 0x27]]\<rparr>)
                 else Inr (None, st))))"

text \<open>The assignment \<^verbatim>\<open>env_[s] = lisp_cell\<close> inside the environment at address \<open>this\<close>.\<close>

definition store_binding :: "nat \<Rightarrow> environment \<Rightarrow> string \<Rightarrow> lisp_cell option \<Rightarrow> state \<Rightarrow> state" where
  "store_binding this e s v st =
     st\<lparr>heap := AList.update this (e\<lparr>env_map := AList.update s v (env_map e)\<rparr>) (heap st)\<rparr>"

fun UpdateSymbol :: "nat \<Rightarrow> nat \<Rightarrow> string \<Rightarrow> lisp_cell option \<Rightarrow> bool \<Rightarrow> state \<Rightarrow> bool result" where
  "UpdateSymbol 0 this s v current_scope_only st = Inl OutOfFuel"
| "UpdateSymbol (Suc k) this s v current_scope_only st =
    (case map_of (heap st) this of
       None \<Rightarrow> Inl DanglingEnvironment
     | Some e \<Rightarrow>
        if map_of (env_map e) s \<noteq> None then Inr (True, store_binding this e s v st)
        else if current_scope_only then Inr (True, store_binding this e s v st)
        else (case outer_env e of
                Some out \<Rightarrow> UpdateSymbol k out s v False st
              | None \<Rightarrow> Inr (False, st)))"

section \<open>Primitive operations\<close>

definition hasTwoOperands :: "lisp_cell option \<Rightarrow> bool" where
  "hasTwoOperands sexpr =
     (case sexpr of None \<Rightarrow> False | Some c \<Rightarrow> \<not> (car c = None \<or> cdr c = None))"

text \<open>
  \<^verbatim>\<open>binop_func\<close>: the four lambdas over \<^verbatim>\<open>lisp_int_t\<close>. Addition, subtraction and
  multiplication wrap around modulo \<open>2 ^ 64\<close>. The division truncates towards zero; it
  traps when the divisor is zero and when the quotient is not representable (the least
  integer divided by \<open>-1\<close>).
\<close>

type_synonym binop_func = "lisp_int_t \<Rightarrow> lisp_int_t \<Rightarrow> error + lisp_int_t"
type_synonym cmpop_func = "lisp_int_t \<Rightarrow> lisp_int_t \<Rightarrow> bool"

definition op_add :: binop_func where "op_add n1 n2 = Inr (n1 + n2)"
definition op_sub :: binop_func where "op_sub n1 n2 = Inr (n1 - n2)"
definition op_mul :: binop_func where "op_mul n1 n2 = Inr (n1 * n2)"
definition op_div :: binop_func where
  "op_div n1 n2 =
     (if n2 = 0 \<or> (n1 = - (2 ^ 63) \<and> n2 = - 1) then Inl DivisionTrap
      else Inr (word_of_int (sint n1 sdiv sint n2)))"

definition op_gt :: cmpop_func where "op_gt n1 n2 = (sint n1 > sint n2)"
definition op_ge :: cmpop_func where "op_ge n1 n2 = (sint n1 \<ge> sint n2)"
definition op_lt :: cmpop_func where "op_lt n1 n2 = (sint n1 < sint n2)"
definition op_le :: cmpop_func where "op_le n1 n2 = (sint n1 \<le> sint n2)"
definition op_eq :: cmpop_func where "op_eq n1 n2 = (n1 = n2)"
definition op_ne :: cmpop_func where "op_ne n1 n2 = (n1 \<noteq> n2)"

text \<open>
  \<^verbatim>\<open>proc_arith_impl\<close> returns \<^verbatim>\<open>bool\<close> and writes its result through the reference \<^verbatim>\<open>n\<close>;
  the model returns \<open>Some n\<close> for \<^verbatim>\<open>true\<close> and \<open>None\<close> for \<^verbatim>\<open>false\<close> (the callers read \<^verbatim>\<open>n\<close>
  only after \<^verbatim>\<open>true\<close>). The first argument is the evaluator \<^verbatim>\<open>eval\<close> that the body calls.
\<close>

fun proc_arith_impl ::
  "evaluator \<Rightarrow> nat \<Rightarrow> lisp_cell option \<Rightarrow> nat \<Rightarrow> binop_func \<Rightarrow> state \<Rightarrow> lisp_int_t option result" where
  "proc_arith_impl ev 0 sexpr env Op st = Inl OutOfFuel"
| "proc_arith_impl ev (Suc k) sexpr env Op st =
    (case sexpr of
       None \<Rightarrow> Inr (None, st)
     | Some c \<Rightarrow>
        if isAtom c then Inr (getValue_int c, st)
        else
          (case ev (car c) env st of
             Inl e \<Rightarrow> Inl e
           | Inr (carval, st1) \<Rightarrow>
              (case proc_arith_impl ev k carval env Op st1 of
                 Inl e \<Rightarrow> Inl e
               | Inr (None, st2) \<Rightarrow> Inr (None, st2)
               | Inr (Some n1, st2) \<Rightarrow>
                  if cdr c = None then Inr (Some n1, st2)
                  else
                    (case ev (cdr c) env st2 of
                       Inl e \<Rightarrow> Inl e
                     | Inr (cdrval, st3) \<Rightarrow>
                        (case (case cdrval of None \<Rightarrow> None | Some v \<Rightarrow> getValue_int v) of
                           Some n2 \<Rightarrow>
                             (case Op n1 n2 of Inl e \<Rightarrow> Inl e | Inr n \<Rightarrow> Inr (Some n, st3))
                         | None \<Rightarrow>
                             (case proc_arith_impl ev k (cdr c) env Op st3 of
                                Inl e \<Rightarrow> Inl e
                              | Inr (None, st4) \<Rightarrow> Inr (None, st4)
                              | Inr (Some n2, st4) \<Rightarrow>
                                  (case Op n1 n2 of
                                     Inl e \<Rightarrow> Inl e
                                   | Inr n \<Rightarrow> Inr (Some n, st4))))))))"

definition proc_arith_main ::
  "evaluator \<Rightarrow> nat \<Rightarrow> lisp_cell option \<Rightarrow> nat \<Rightarrow> binop_func \<Rightarrow> state \<Rightarrow> lisp_cell option result" where
  "proc_arith_main ev k sexpr env Op st =
    (case proc_arith_impl ev k sexpr env Op st of
       Inl e \<Rightarrow> Inl e
     | Inr (Some n, st1) \<Rightarrow> Inr (Some (Integer n), st1)
     | Inr (None, st1) \<Rightarrow> Inr (Some false_sexpr, st1))"

definition proc_add :: "evaluator \<Rightarrow> nat \<Rightarrow> lisp_cell option \<Rightarrow> nat \<Rightarrow> state \<Rightarrow> lisp_cell option result" where
  "proc_add ev k sexpr env st = proc_arith_main ev k sexpr env op_add st"

definition proc_sub :: "evaluator \<Rightarrow> nat \<Rightarrow> lisp_cell option \<Rightarrow> nat \<Rightarrow> state \<Rightarrow> lisp_cell option result" where
  "proc_sub ev k sexpr env st = proc_arith_main ev k sexpr env op_sub st"

definition proc_mul :: "evaluator \<Rightarrow> nat \<Rightarrow> lisp_cell option \<Rightarrow> nat \<Rightarrow> state \<Rightarrow> lisp_cell option result" where
  "proc_mul ev k sexpr env st = proc_arith_main ev k sexpr env op_mul st"

definition proc_div :: "evaluator \<Rightarrow> nat \<Rightarrow> lisp_cell option \<Rightarrow> nat \<Rightarrow> state \<Rightarrow> lisp_cell option result" where
  "proc_div ev k sexpr env st = proc_arith_main ev k sexpr env op_div st"

text \<open>
  \<^verbatim>\<open>proc_compare_impl\<close>: \<open>Some n\<close> is \<^verbatim>\<open>true\<close>, with \<^verbatim>\<open>n\<close> the integer that the first recursive
  call stored through the reference; \<open>None\<close> is \<^verbatim>\<open>false\<close>.
\<close>

fun proc_compare_impl ::
  "evaluator \<Rightarrow> nat \<Rightarrow> lisp_cell option \<Rightarrow> nat \<Rightarrow> cmpop_func \<Rightarrow> state \<Rightarrow> lisp_int_t option result" where
  "proc_compare_impl ev 0 sexpr env Op st = Inl OutOfFuel"
| "proc_compare_impl ev (Suc k) sexpr env Op st =
    (case sexpr of
       None \<Rightarrow> Inr (None, st)
     | Some c \<Rightarrow>
        if isAtom c then Inr (getValue_int c, st)
        else
          (case ev (car c) env st of
             Inl e \<Rightarrow> Inl e
           | Inr (carval, st1) \<Rightarrow>
              (case proc_compare_impl ev k carval env Op st1 of
                 Inl e \<Rightarrow> Inl e
               | Inr (None, st2) \<Rightarrow> Inr (None, st2)
               | Inr (Some n, st2) \<Rightarrow>
                  if cdr c = None then Inr (Some n, st2)
                  else
                    (case ev (cdr c) env st2 of
                       Inl e \<Rightarrow> Inl e
                     | Inr (cdrval, st3) \<Rightarrow>
                        (case (case cdrval of None \<Rightarrow> None | Some v \<Rightarrow> getValue_int v) of
                           Some n2 \<Rightarrow> Inr (if Op n n2 then Some n else None, st3)
                         | None \<Rightarrow>
                             (case proc_compare_impl ev k (cdr c) env Op st3 of
                                Inl e \<Rightarrow> Inl e
                              | Inr (None, st4) \<Rightarrow> Inr (None, st4)
                              | Inr (Some n2, st4) \<Rightarrow>
                                  Inr (if Op n n2 then Some n else None, st4)))))))"

definition proc_compare_main ::
  "evaluator \<Rightarrow> nat \<Rightarrow> lisp_cell option \<Rightarrow> nat \<Rightarrow> cmpop_func \<Rightarrow> state \<Rightarrow> lisp_cell option result" where
  "proc_compare_main ev k sexpr env Op st =
    (case proc_compare_impl ev k sexpr env Op st of
       Inl e \<Rightarrow> Inl e
     | Inr (Some n, st1) \<Rightarrow> Inr (Some true_sexpr, st1)
     | Inr (None, st1) \<Rightarrow> Inr (Some false_sexpr, st1))"

definition proc_cmpgt :: "evaluator \<Rightarrow> nat \<Rightarrow> lisp_cell option \<Rightarrow> nat \<Rightarrow> state \<Rightarrow> lisp_cell option result" where
  "proc_cmpgt ev k sexpr env st = proc_compare_main ev k sexpr env op_gt st"

definition proc_cmpge :: "evaluator \<Rightarrow> nat \<Rightarrow> lisp_cell option \<Rightarrow> nat \<Rightarrow> state \<Rightarrow> lisp_cell option result" where
  "proc_cmpge ev k sexpr env st = proc_compare_main ev k sexpr env op_ge st"

definition proc_cmplt :: "evaluator \<Rightarrow> nat \<Rightarrow> lisp_cell option \<Rightarrow> nat \<Rightarrow> state \<Rightarrow> lisp_cell option result" where
  "proc_cmplt ev k sexpr env st = proc_compare_main ev k sexpr env op_lt st"

definition proc_cmple :: "evaluator \<Rightarrow> nat \<Rightarrow> lisp_cell option \<Rightarrow> nat \<Rightarrow> state \<Rightarrow> lisp_cell option result" where
  "proc_cmple ev k sexpr env st = proc_compare_main ev k sexpr env op_le st"

definition proc_cmpeq :: "evaluator \<Rightarrow> nat \<Rightarrow> lisp_cell option \<Rightarrow> nat \<Rightarrow> state \<Rightarrow> lisp_cell option result" where
  "proc_cmpeq ev k sexpr env st = proc_compare_main ev k sexpr env op_eq st"

definition proc_cmpne :: "evaluator \<Rightarrow> nat \<Rightarrow> lisp_cell option \<Rightarrow> nat \<Rightarrow> state \<Rightarrow> lisp_cell option result" where
  "proc_cmpne ev k sexpr env st = proc_compare_main ev k sexpr env op_ne st"

section \<open>List processing and the special forms\<close>

definition eval_car :: "evaluator \<Rightarrow> lisp_cell option \<Rightarrow> nat \<Rightarrow> state \<Rightarrow> lisp_cell option result" where
  "eval_car ev sexpr env st =
    (case sexpr of
       None \<Rightarrow> Inr (None, st)
     | Some _ \<Rightarrow>
        (case ev sexpr env st of
           Inl e \<Rightarrow> Inl e
         | Inr (None, st1) \<Rightarrow> Inr (Some bad_sexpr, st1)
         | Inr (Some v, st1) \<Rightarrow>
             if isAtom v then Inr (Some bad_sexpr, st1) else Inr (car v, st1)))"

definition eval_cdr :: "evaluator \<Rightarrow> lisp_cell option \<Rightarrow> nat \<Rightarrow> state \<Rightarrow> lisp_cell option result" where
  "eval_cdr ev sexpr env st =
    (case sexpr of
       None \<Rightarrow> Inr (None, st)
     | Some _ \<Rightarrow>
        (case ev sexpr env st of
           Inl e \<Rightarrow> Inl e
         | Inr (None, st1) \<Rightarrow> Inr (Some bad_sexpr, st1)
         | Inr (Some v, st1) \<Rightarrow>
             if isAtom v then Inr (Some bad_sexpr, st1) else Inr (cdr v, st1)))"

definition eval_cons :: "evaluator \<Rightarrow> lisp_cell option \<Rightarrow> nat \<Rightarrow> state \<Rightarrow> lisp_cell option result" where
  "eval_cons ev sexpr env st =
    (case sexpr of
       None \<Rightarrow> Inl NullDereference
     | Some c \<Rightarrow>
        (case ev (car c) env st of
           Inl e \<Rightarrow> Inl e
         | Inr (car_val, st1) \<Rightarrow>
            (case ev (cdr c) env st1 of
               Inl e \<Rightarrow> Inl e
             | Inr (cdr_val, st2) \<Rightarrow> Inr (Some (Cells car_val cdr_val), st2))))"

fun eval_list :: "evaluator \<Rightarrow> lisp_cell option \<Rightarrow> nat \<Rightarrow> state \<Rightarrow> lisp_cell option result" where
  "eval_list ev None env st = Inr (None, st)"
| "eval_list ev (Some (Cells a d)) env st =
    (case eval_list ev a env st of
       Inl e \<Rightarrow> Inl e
     | Inr (car_val, st1) \<Rightarrow>
        (case d of
           None \<Rightarrow> Inl NullDereference
         | Some dc \<Rightarrow>
            if isLispCells dc then
              (case eval_list ev d env st1 of
                 Inl e \<Rightarrow> Inl e
               | Inr (cdr_val, st2) \<Rightarrow> Inr (Some (Cells car_val cdr_val), st2))
            else
              (case ev d env st1 of
                 Inl e \<Rightarrow> Inl e
               | Inr (v, st2) \<Rightarrow> Inr (Some (Cells car_val (Some (Cells v None))), st2))))"
| "eval_list ev (Some c) env st = ev (Some c) env st"

definition eval_if :: "evaluator \<Rightarrow> lisp_cell option \<Rightarrow> nat \<Rightarrow> state \<Rightarrow> lisp_cell option result" where
  "eval_if ev sexpr env st =
    (if \<not> hasTwoOperands sexpr then Inr (Some bad_sexpr, st)
     else
       (case sexpr of
          None \<Rightarrow> Inl NullDereference
        | Some c \<Rightarrow>
           (case ev (car c) env st of
              Inl e \<Rightarrow> Inl e
            | Inr (val, st1) \<Rightarrow>
               (case cdr c of
                  None \<Rightarrow> Inl NullDereference
                | Some d \<Rightarrow>
                   if val \<noteq> Some false_sexpr then ev (car d) env st1
                   else ev (cdr d) env st1))))"

definition eval_set ::
  "evaluator \<Rightarrow> nat \<Rightarrow> lisp_cell option \<Rightarrow> nat \<Rightarrow> bool \<Rightarrow> state \<Rightarrow> lisp_cell option result" where
  "eval_set ev k sexpr env is_define st =
    (if \<not> hasTwoOperands sexpr then Inr (Some bad_sexpr, st)
     else
       (case sexpr of
          None \<Rightarrow> Inl NullDereference
        | Some c \<Rightarrow>
           (case car c of
              None \<Rightarrow> Inl NullDereference
            | Some a \<Rightarrow>
               (case getValue_string a of
                  None \<Rightarrow> Inr (Some bad_sexpr, st)
                | Some s \<Rightarrow>
                   (case ev (cdr c) env st of
                      Inl e \<Rightarrow> Inl e
                    | Inr (val, st1) \<Rightarrow>
                       (case UpdateSymbol k env s val is_define st1 of
                          Inl e \<Rightarrow> Inl e
                        | Inr (True, st2) \<Rightarrow> Inr (val, st2)
                        | Inr (False, st2) \<Rightarrow>
                            Inr (Some nil_sexpr,
                                 st2\<lparr>cout := cout st2 @
                                   [''Variable '' @ [CHR 0x27] @ s @ [CHR 0x27] @ '' does not exist.'']\<rparr>)))))))"

definition eval_setq :: "evaluator \<Rightarrow> nat \<Rightarrow> lisp_cell option \<Rightarrow> nat \<Rightarrow> state \<Rightarrow> lisp_cell option result" where
  "eval_setq ev k sexpr env st = eval_set ev k sexpr env False st"

definition eval_define :: "evaluator \<Rightarrow> nat \<Rightarrow> lisp_cell option \<Rightarrow> nat \<Rightarrow> state \<Rightarrow> lisp_cell option result" where
  "eval_define ev k sexpr env st = eval_set ev k sexpr env True st"

definition eval_begin :: "evaluator \<Rightarrow> lisp_cell option \<Rightarrow> nat \<Rightarrow> state \<Rightarrow> lisp_cell option result" where
  "eval_begin ev sexpr env st =
    (case sexpr of
       None \<Rightarrow> Inr (None, st)
     | Some c \<Rightarrow>
        if isAtom c then ev sexpr env st
        else
          (case ev (car c) env st of
             Inl e \<Rightarrow> Inl e
           | Inr (val, st1) \<Rightarrow>
              if cdr c \<noteq> None then ev (cdr c) env st1 else Inr (val, st1)))"

section \<open>Procedure calls, closures and \<^verbatim>\<open>eval\<close>\<close>

text \<open>
  \<^verbatim>\<open>eval_proc\<close>: the call \<^verbatim>\<open>native_func(func_body, env)\<close> through the function pointer is
  the dispatch on the address it holds.
\<close>

definition call_native ::
  "proc_type \<Rightarrow> evaluator \<Rightarrow> nat \<Rightarrow> lisp_cell option \<Rightarrow> nat \<Rightarrow> state \<Rightarrow> lisp_cell option result" where
  "call_native p ev k sexpr env st =
    (case p of
       addr_proc_add \<Rightarrow> proc_add ev k sexpr env st
     | addr_proc_sub \<Rightarrow> proc_sub ev k sexpr env st
     | addr_proc_mul \<Rightarrow> proc_mul ev k sexpr env st
     | addr_proc_div \<Rightarrow> proc_div ev k sexpr env st
     | addr_proc_cmpgt \<Rightarrow> proc_cmpgt ev k sexpr env st
     | addr_proc_cmpge \<Rightarrow> proc_cmpge ev k sexpr env st
     | addr_proc_cmplt \<Rightarrow> proc_cmplt ev k sexpr env st
     | addr_proc_cmple \<Rightarrow> proc_cmple ev k sexpr env st
     | addr_proc_cmpeq \<Rightarrow> proc_cmpeq ev k sexpr env st
     | addr_proc_cmpne \<Rightarrow> proc_cmpne ev k sexpr env st
     | addr_eval_begin \<Rightarrow> eval_begin ev sexpr env st
     | addr_eval_car \<Rightarrow> eval_car ev sexpr env st
     | addr_eval_cdr \<Rightarrow> eval_cdr ev sexpr env st
     | addr_eval_cons \<Rightarrow> eval_cons ev sexpr env st
     | addr_eval_define \<Rightarrow> eval_define ev k sexpr env st
     | addr_eval_if \<Rightarrow> eval_if ev sexpr env st
     | addr_eval_list \<Rightarrow> eval_list ev sexpr env st
     | addr_eval_setq \<Rightarrow> eval_setq ev k sexpr env st)"

definition eval_proc ::
  "evaluator \<Rightarrow> nat \<Rightarrow> lisp_cell \<Rightarrow> lisp_cell option \<Rightarrow> nat \<Rightarrow> state \<Rightarrow> lisp_cell option result" where
  "eval_proc ev k proc func_body env st =
    (case getValue_proc proc of
       Some native_func \<Rightarrow> call_native native_func ev k func_body env st
     | None \<Rightarrow> Inr (None, st))"

text \<open>
  The loop of the constructor \<^verbatim>\<open>environment(params, args, outer)\<close>, which fills \<^verbatim>\<open>env_\<close>:
  the fourth argument is \<^verbatim>\<open>outer_\<close>, the fifth the map built so far.
\<close>

fun environment_ctor ::
  "evaluator \<Rightarrow> lisp_cell option \<Rightarrow> lisp_cell option \<Rightarrow> nat \<Rightarrow> sym_map \<Rightarrow> state \<Rightarrow> sym_map result" where
  "environment_ctor ev None args outer m st = Inr (m, st)"
| "environment_ctor ev (Some (Cells a d)) args outer m st =
    (case a of
       None \<Rightarrow> Inl NullDereference
     | Some pa \<Rightarrow>
        (case args of
           None \<Rightarrow> Inl NullDereference
         | Some ac \<Rightarrow>
            (case isSymbol pa of
               Some param \<Rightarrow>
                 (case ev (car ac) outer st of
                    Inl e \<Rightarrow> Inl e
                  | Inr (v, st1) \<Rightarrow>
                      environment_ctor ev d (cdr ac) outer (AList.update param v m) st1)
             | None \<Rightarrow> environment_ctor ev d (cdr ac) outer m st)))"
| "environment_ctor ev (Some p) args outer m st =
    (case isSymbol p of
       Some param \<Rightarrow>
         (case ev args outer st of
            Inl e \<Rightarrow> Inl e
          | Inr (v, st1) \<Rightarrow> Inr (AList.update param v m, st1))
     | None \<Rightarrow> Inl NullDereference)"

definition eval_lambda ::
  "evaluator \<Rightarrow> lisp_cell option \<Rightarrow> lisp_cell option \<Rightarrow> nat \<Rightarrow> lisp_cell option \<Rightarrow> nat \<Rightarrow> state
     \<Rightarrow> lisp_cell option result" where
  "eval_lambda ev params body lenv args env st =
    (let new_env = next_env st in
     case environment_ctor ev params args lenv [] (st\<lparr>next_env := Suc new_env\<rparr>) of
       Inl e \<Rightarrow> Inl e
     | Inr (m, st1) \<Rightarrow>
        (case ev body new_env
                (st1\<lparr>heap := AList.update new_env \<lparr>env_map = m, outer_env = Some lenv\<rparr> (heap st1)\<rparr>) of
           Inl e \<Rightarrow> Inl e
         | Inr (val, st2) \<Rightarrow> Inr (val, st2\<lparr>heap := AList.delete new_env (heap st2)\<rparr>)))"

definition makeLambda :: "lisp_cell \<Rightarrow> nat \<Rightarrow> lisp_cell option" where
  "makeLambda sexpr env =
    (case cdr sexpr of
       None \<Rightarrow> None
     | Some d \<Rightarrow>
        if \<not> isLispCells d
           \<or> (case car d of None \<Rightarrow> False | Some p \<Rightarrow> \<not> isLispCells p)
           \<or> cdr d = None
        then None
        else Some (Lambda (car d) (cdr d) env))"

text \<open>
  \<^verbatim>\<open>eval\<close>. The first argument bounds the depth of nested calls: \<open>eval (Suc n)\<close> runs the
  body of \<^verbatim>\<open>eval\<close>, in which every call of \<^verbatim>\<open>eval\<close> is \<open>eval n\<close>.
\<close>

primrec eval :: "nat \<Rightarrow> lisp_cell option \<Rightarrow> nat \<Rightarrow> state \<Rightarrow> lisp_cell option result" where
  "eval 0 sexpr env st = Inl OutOfFuel"
| "eval (Suc n) sexpr env st =
    (case sexpr of
       None \<Rightarrow> Inr (None, st)
     | Some c \<Rightarrow>
        if c = nil_sexpr \<or> c = bad_sexpr \<or> isConstant c then Inr (sexpr, st)
        else if isAtom c then
          (case isSymbol c of
             None \<Rightarrow> Inr (Some nil_sexpr, st)
           | Some s \<Rightarrow>
              (case FindSymbol n env s st of
                 Inl e \<Rightarrow> Inl e
               | Inr (Some val, st1) \<Rightarrow> Inr (val, st1)
               | Inr (None, st1) \<Rightarrow> Inr (Some nil_sexpr, st1)))
        else
          (case car c of
             None \<Rightarrow> Inr (Some bad_sexpr, st)
           | Some a \<Rightarrow>
              if a = nil_sexpr \<or> a = bad_sexpr \<or> isConstant a then Inr (Some bad_sexpr, st)
              else
                (case isSymbol a of
                   None \<Rightarrow> Inr (None, st)
                 | Some s \<Rightarrow>
                    if s = ''quote'' then Inr (cdr c, st)
                    else if s = ''lambda'' then Inr (makeLambda c env, st)
                    else
                      (case FindSymbol n env s st of
                         Inl e \<Rightarrow> Inl e
                       | Inr (None, st1) \<Rightarrow> Inr (Some bad_sexpr, st1)
                       | Inr (Some None, st1) \<Rightarrow> Inl NullDereference
                       | Inr (Some (Some val), st1) \<Rightarrow>
                          (case val of
                             Lambda params body lenv \<Rightarrow>
                               eval_lambda (eval n) params body lenv (cdr c) env st1
                           | _ \<Rightarrow> eval_proc (eval n) n val (cdr c) env st1)))))"

section \<open>The global environment\<close>

text \<open>\<^verbatim>\<open>add_globals\<close>, applied to the \<^verbatim>\<open>sym_map\<close> of the environment, in the order of the source.\<close>

definition add_globals :: "sym_map \<Rightarrow> sym_map" where
  "add_globals =
     AList.update ''setq'' (Some (Proc addr_eval_setq)) \<circ>
     AList.update ''list'' (Some (Proc addr_eval_list)) \<circ>
     AList.update ''if'' (Some (Proc addr_eval_if)) \<circ>
     AList.update ''define'' (Some (Proc addr_eval_define)) \<circ>
     AList.update ''cons'' (Some (Proc addr_eval_cons)) \<circ>
     AList.update ''cdr'' (Some (Proc addr_eval_cdr)) \<circ>
     AList.update ''car'' (Some (Proc addr_eval_car)) \<circ>
     AList.update ''begin'' (Some (Proc addr_eval_begin)) \<circ>
     AList.update ''ne'' (Some (Proc addr_proc_cmpne)) \<circ>
     AList.update ''eq'' (Some (Proc addr_proc_cmpeq)) \<circ>
     AList.update ''>='' (Some (Proc addr_proc_cmpge)) \<circ>
     AList.update ''<='' (Some (Proc addr_proc_cmple)) \<circ>
     AList.update ''<'' (Some (Proc addr_proc_cmplt)) \<circ>
     AList.update ''>'' (Some (Proc addr_proc_cmpgt)) \<circ>
     AList.update ''/'' (Some (Proc addr_proc_div)) \<circ>
     AList.update ''*'' (Some (Proc addr_proc_mul)) \<circ>
     AList.update ''-'' (Some (Proc addr_proc_sub)) \<circ>
     AList.update ''+'' (Some (Proc addr_proc_add)) \<circ>
     AList.update ''#t'' (Some true_sexpr) \<circ>
     AList.update ''#f'' (Some false_sexpr) \<circ>
     AList.update ''nil'' (Some nil_sexpr)"

text \<open>
  The state in which \<^verbatim>\<open>main\<close> enters \<^verbatim>\<open>repl\<close>: the object \<^verbatim>\<open>global_env\<close> (no outer
  environment) at address \<open>0\<close>, filled by \<^verbatim>\<open>add_globals\<close>.
\<close>

definition global_env :: nat where
  "global_env = 0"

definition initial_state :: state where
  "initial_state =
     \<lparr>heap = [(global_env, \<lparr>env_map = add_globals [], outer_env = None\<rparr>)],
      next_env = 1, undefined_symbols = [], cout = []\<rparr>"

section \<open>The reader: \<^verbatim>\<open>tokenize\<close>\<close>

text \<open>
  The character classes of \<^verbatim>\<open><cctype>\<close> in the C locale, on the code of the character.
  A byte above 127 is in no class. \<^verbatim>\<open>islower\<close> returns an \<^verbatim>\<open>int\<close>, which the tokenizer
  compares with \<^verbatim>\<open>'x'\<close>: the model returns the flag value of glibc for a lower-case letter
  (any value other than 120 gives the same tokens) and 0 otherwise.
\<close>

definition isspace :: "char \<Rightarrow> bool" where
  "isspace c = ((of_char c :: nat) = 32 \<or> (9 \<le> (of_char c :: nat) \<and> (of_char c :: nat) \<le> 13))"

definition isprint :: "char \<Rightarrow> bool" where
  "isprint c = (32 \<le> (of_char c :: nat) \<and> (of_char c :: nat) \<le> 126)"

definition isdigit :: "char \<Rightarrow> bool" where
  "isdigit c = (48 \<le> (of_char c :: nat) \<and> (of_char c :: nat) \<le> 57)"

definition isupper :: "char \<Rightarrow> bool" where
  "isupper c = (65 \<le> (of_char c :: nat) \<and> (of_char c :: nat) \<le> 90)"

definition islower :: "char \<Rightarrow> int" where
  "islower c = (if 97 \<le> (of_char c :: nat) \<and> (of_char c :: nat) \<le> 122 then 512 else 0)"

definition isalpha :: "char \<Rightarrow> bool" where
  "isalpha c = (isupper c \<or> islower c \<noteq> 0)"

definition isalnum :: "char \<Rightarrow> bool" where
  "isalnum c = (isalpha c \<or> isdigit c)"

definition isxdigit :: "char \<Rightarrow> bool" where
  "isxdigit c = (isdigit c \<or> (65 \<le> (of_char c :: nat) \<and> (of_char c :: nat) \<le> 70)
                  \<or> (97 \<le> (of_char c :: nat) \<and> (of_char c :: nat) \<le> 102))"

definition EOINPUT :: "char \<Rightarrow> bool" where
  "EOINPUT c = (c = CHR 0x00 \<or> c = CHR 0x0A)"

definition ops :: string where
  "ops = ''()[]{}:*/''"

text \<open>
  The pointer \<^verbatim>\<open>next\<close> into the line is the rest of the line from there; the empty rest
  is the position of the terminating zero. \<open>at0 s\<close> is \<^verbatim>\<open>*next\<close>, and also \<^verbatim>\<open>token[0]\<close> of a
  \<^verbatim>\<open>std::string\<close>.
\<close>

definition at0 :: "string \<Rightarrow> char" where
  "at0 s = (case s of [] \<Rightarrow> CHR 0x00 | c # _ \<Rightarrow> c)"

definition ident_char :: "char \<Rightarrow> bool" where
  "ident_char c = (isalnum c \<or> c = CHR ''_'')"

text \<open>The loop that copies a quoted string up to and with its closing quote.\<close>

fun scan_string :: "string \<Rightarrow> string \<times> string" where
  "scan_string [] = ([], [])"
| "scan_string (c # s) =
    (if EOINPUT c then ([], c # s)
     else if c = CHR 0x22 then ([c], s)
     else if c = CHR 0x27 \<and> \<not> EOINPUT (at0 s) then
       (case s of
          [] \<Rightarrow> ([c], [])
        | d # s' \<Rightarrow> (case scan_string s' of (str, rest) \<Rightarrow> (c # d # str, rest)))
     else (case scan_string s of (str, rest) \<Rightarrow> (c # str, rest)))"

text \<open>
  One round of the chain of \<^verbatim>\<open>if\<close>s in the loop of \<^verbatim>\<open>tokenize\<close>, from a position that is
  not the end of the input: the text collected in \<^verbatim>\<open>str\<close> and the position reached.
\<close>

definition scan_number :: "string \<Rightarrow> string \<times> string" where
  "scan_number s =
    (let sign = (if at0 s = CHR ''+'' \<or> at0 s = CHR ''-'' then [at0 s] else []);
         s1 = (if at0 s = CHR ''+'' \<or> at0 s = CHR ''-'' then tl s else s)
     in if at0 s1 = CHR ''0'' \<and> islower (at0 (tl s1)) = int (of_char CHR ''x'')
           \<and> isxdigit (at0 (tl (tl s1)))
        then (sign @ ''0x'' @ takeWhile (\<lambda>c. isdigit c \<or> isxdigit c) (tl (tl s1)),
              dropWhile (\<lambda>c. isdigit c \<or> isxdigit c) (tl (tl s1)))
        else (sign @ takeWhile isdigit s1, dropWhile isdigit s1))"

definition scan_token :: "string \<Rightarrow> string \<times> string" where
  "scan_token s =
    (let c = at0 s in
     if c \<in> set ops then ([c], tl s)
     else if isalpha c \<or> c = CHR ''_'' then (takeWhile ident_char s, dropWhile ident_char s)
     else if c = CHR ''#'' \<and> isalpha (at0 (tl s)) then
       (c # takeWhile ident_char (tl s), dropWhile ident_char (tl s))
     else if isdigit c \<or> ((c = CHR ''+'' \<or> c = CHR ''-'') \<and> isdigit (at0 (tl s))) then scan_number s
     else if c = CHR ''+'' \<or> c = CHR ''-'' then ([c], tl s)
     else if c = CHR ''<'' \<or> c = CHR ''>'' then
       (if at0 (tl s) = CHR ''='' then ([c, CHR ''=''], tl (tl s)) else ([c], tl s))
     else if c = CHR 0x22 then (case scan_string (tl s) of (str, rest) \<Rightarrow> (c # str, rest))
     else ([], s))"

text \<open>The loop that ends a round: \<^verbatim>\<open>while (!EOINPUT(*next) && (isspace(*next) || !isprint(*next)))\<close>.\<close>

fun skip_blanks :: "string \<Rightarrow> string" where
  "skip_blanks [] = []"
| "skip_blanks (c # s) =
    (if \<not> EOINPUT c \<and> (isspace c \<or> \<not> isprint c) then skip_blanks s else c # s)"

text \<open>
  The first loop of \<^verbatim>\<open>tokenize\<close> has no test for the end of the input: the terminating zero
  is not printable, so the loop steps over it and reads past the end of the line.
\<close>

fun skip_leading :: "string \<Rightarrow> error + string" where
  "skip_leading [] = Inl EndOfLine"
| "skip_leading (c # s) = (if isspace c \<or> \<not> isprint c then skip_leading s else Inr (c # s))"

lemma islower_neq_x: "islower c \<noteq> int (of_char CHR ''x'')"
  by (simp add: islower_def)

lemma scan_number_eq:
  "scan_number s =
     (if at0 s = CHR ''+'' \<or> at0 s = CHR ''-''
      then (at0 s # takeWhile isdigit (tl s), dropWhile isdigit (tl s))
      else (takeWhile isdigit s, dropWhile isdigit s))"
  using islower_neq_x by (simp add: scan_number_def Let_def)

lemma length_skip_blanks: "length (skip_blanks s) \<le> length s"
  by (induction s) auto

lemma length_scan_string: "scan_string s = (str, rest) \<Longrightarrow> length rest \<le> length s"
proof (induction s arbitrary: str rest rule: scan_string.induct)
  case 1
  then show ?case by simp
next
  case (2 c s)
  then show ?case
    by (fastforce split: if_splits list.splits prod.splits)
qed

lemma length_tl_dropWhile_le: "length (dropWhile P (tl s)) \<le> length s"
  by (metis length_dropWhile_le length_tl diff_le_self le_trans)

lemma length_scan_string_tl: "scan_string (tl s) = (a, b) \<Longrightarrow> length b \<le> length s"
  by (metis length_scan_string length_tl diff_le_self le_trans)

lemma length_scan_token_le:
  assumes "scan_token s = (str, rest)"
  shows "length rest \<le> length s"
proof -
  consider "rest = tl s" | "rest = dropWhile ident_char s" | "rest = dropWhile ident_char (tl s)"
    | "rest = dropWhile isdigit s" | "rest = dropWhile isdigit (tl s)" | "rest = tl (tl s)"
    | a where "scan_string (tl s) = (a, rest)" | "rest = s"
    using assms
    by (simp add: scan_token_def scan_number_eq Let_def split: if_splits prod.splits)
  then show ?thesis
    by cases (simp_all add: length_dropWhile_le length_tl_dropWhile_le length_scan_string_tl)
qed


lemma length_scan_token_less:
  assumes "scan_token s = (str, rest)" and "str \<noteq> []" and "s \<noteq> []"
  shows "length rest < length s"
proof -
  obtain c s' where s: "s = c # s'" using assms(3) by (cases s) auto
  have ident: "isalpha c \<or> c = CHR ''_'' \<Longrightarrow> ident_char c"
    by (auto simp: ident_char_def isalnum_def)
  have str: "\<And>a b. scan_string s' = (a, b) \<Longrightarrow> length b \<le> length s'"
    by (rule length_scan_string)
  consider "rest = s'" | "rest = dropWhile ident_char s'" | "rest = dropWhile isdigit s'"
    | "rest = tl s'" | a where "scan_string s' = (a, rest)"
    using assms(1,2) ident unfolding s
    by (simp add: scan_token_def scan_number_eq Let_def at0_def split: if_splits prod.splits)
  then have "length rest \<le> length s'"
    by cases (simp_all add: length_dropWhile_le length_scan_string)
  then show ?thesis by (simp add: s)
qed

lemma tokens_loop_unknown_decreases:
  assumes "\<not> EOINPUT (at0 s)" and "scan_token s = ([], rest)"
  shows "length (skip_blanks (tl rest)) < length s"
proof -
  from assms(1) have ne: "s \<noteq> []" by (auto simp: EOINPUT_def at0_def)
  have "length rest \<le> length s"
    using length_scan_token_le [OF assms(2)] .
  then show ?thesis
    using ne length_skip_blanks [of "tl rest"] by (cases rest; cases s) auto
qed

lemma tokens_loop_token_decreases:
  assumes "\<not> EOINPUT (at0 s)" and "scan_token s = (str, rest)" and "str \<noteq> []"
  shows "length (skip_blanks rest) < length s"
proof -
  from assms(1) have ne: "s \<noteq> []" by (auto simp: EOINPUT_def at0_def)
  have "length rest < length s"
    using length_scan_token_less [OF assms(2,3) ne] .
  then show ?thesis
    using length_skip_blanks [of rest] by simp
qed

function tokens_loop :: "string \<Rightarrow> string list" where
  "tokens_loop s =
    (if EOINPUT (at0 s) then []
     else
       (case scan_token s of
          (str, rest) \<Rightarrow>
            if str = [] then tokens_loop (skip_blanks (tl rest))
            else str # tokens_loop (skip_blanks rest)))"
  by pat_completeness auto
termination
  by (relation "measure length")
     (auto simp: tokens_loop_unknown_decreases tokens_loop_token_decreases dest: sym)

definition tokenize :: "string \<Rightarrow> error + string list" where
  "tokenize s = (case skip_leading s of Inl e \<Rightarrow> Inl e | Inr s' \<Rightarrow> Inr (tokens_loop s'))"

section \<open>The reader: \<^verbatim>\<open>makeLispObject\<close> and \<^verbatim>\<open>makeLispTree\<close>\<close>

type_synonym Tokens = "string list"

text \<open>
  \<^verbatim>\<open>strtoll(&token[0], 0, 0)\<close> on a token whose first character is a digit (the only call):
  base 16 after \<^verbatim>\<open>0x\<close> or \<^verbatim>\<open>0X\<close> and a hexadecimal digit, base 8 after a leading \<^verbatim>\<open>0\<close>,
  base 10 otherwise; the longest prefix of digits of the base is converted, and a value
  above \<^verbatim>\<open>LLONG_MAX\<close> is returned as \<^verbatim>\<open>LLONG_MAX\<close>.
\<close>

definition digit_val :: "char \<Rightarrow> nat" where
  "digit_val c =
     (if isdigit c then of_char c - 48
      else if 97 \<le> (of_char c :: nat) then of_char c - 87
      else of_char c - 55)"

fun strtoll_digits :: "nat \<Rightarrow> string \<Rightarrow> nat \<Rightarrow> nat" where
  "strtoll_digits base [] acc = acc"
| "strtoll_digits base (c # s) acc =
     (if isxdigit c \<and> digit_val c < base then strtoll_digits base s (acc * base + digit_val c)
      else acc)"

definition hex_prefix :: "string \<Rightarrow> bool" where
  "hex_prefix token =
     (case token of
        c0 # x # h # _ \<Rightarrow> c0 = CHR ''0'' \<and> (x = CHR ''x'' \<or> x = CHR ''X'') \<and> isxdigit h
      | _ \<Rightarrow> False)"

definition LLONG_MAX :: nat where
  "LLONG_MAX = 2 ^ 63 - 1"

definition strtoll :: "string \<Rightarrow> lisp_int_t" where
  "strtoll token =
     (let v = (if hex_prefix token then strtoll_digits 16 (drop 2 token) 0
               else if at0 token = CHR ''0'' then strtoll_digits 8 token 0
               else strtoll_digits 10 token 0)
      in if v > LLONG_MAX then word_of_nat LLONG_MAX else word_of_nat v)"

text \<open>\<^verbatim>\<open>boost::to_lower\<close> in the classic locale.\<close>

definition tolower :: "char \<Rightarrow> char" where
  "tolower c = (if isupper c then char_of ((of_char c :: nat) + 32) else c)"

definition to_lower :: "string \<Rightarrow> string" where
  "to_lower s = map tolower s"

text \<open>
  The iterator \<^verbatim>\<open>token_stream\<close> is the list of the tokens from its position to \<^verbatim>\<open>end\<close>
  (empty when \<^verbatim>\<open>token_stream == end\<close>); both functions return the cell and the position in
  which they leave the iterator. \<^verbatim>\<open>makeLispTree\<close> increments the iterator and dereferences
  it without a test: at the last token that is the error \<open>EndOfTokens\<close>.
\<close>

function makeLispObject :: "Tokens \<Rightarrow> error + (lisp_cell option \<times> Tokens)"
  and makeLispTree :: "Tokens \<Rightarrow> error + (lisp_cell option \<times> Tokens)" where
  "makeLispObject token_stream =
    (case token_stream of
       [] \<Rightarrow> Inr (None, token_stream)
     | token # _ \<Rightarrow>
        if isdigit (at0 token) then Inr (Some (Integer (strtoll token)), token_stream)
        else if at0 token = CHR 0x22 then Inr (Some (CString token), token_stream)
        else if at0 token \<noteq> CHR ''('' then Inr (Some (Symbol (to_lower token)), token_stream)
        else makeLispTree token_stream)"
| "makeLispTree token_stream =
    (case tl token_stream of
       [] \<Rightarrow> Inl EndOfTokens
     | token # rest \<Rightarrow>
        if at0 token = CHR '')'' then Inr (None, token # rest)
        else
          (case makeLispObject (token # rest) of
             Inl e \<Rightarrow> Inl e
           | Inr (car_val, ts1) \<Rightarrow>
              (case makeLispTree ts1 of
                 Inl e \<Rightarrow> Inl e
               | Inr (cdr_val, ts2) \<Rightarrow>
                  if cdr_val = None then Inr (car_val, ts2)
                  else Inr (Some (Cells car_val cdr_val), ts2))))"
  by pat_completeness auto

lemma parse_length:
  "makeLispObject_makeLispTree_dom (Inl ts) \<Longrightarrow> makeLispObject ts = Inr (v, r) \<Longrightarrow> length r \<le> length ts"
  "makeLispObject_makeLispTree_dom (Inr ts) \<Longrightarrow> makeLispTree ts = Inr (v, r) \<Longrightarrow> length r < length ts"
proof (induct ts and ts arbitrary: v r and v r rule: makeLispObject_makeLispTree.pinduct)
  case (1 ts)
  then show ?case
    by (fastforce simp: makeLispObject.psimps split: list.splits if_splits)
next
  case (2 ts)
  from 2(1) 2(4) show ?case
    apply (simp add: makeLispTree.psimps[OF 2(1)] split: list.splits if_splits sum.splits prod.splits)
    using 2(2) 2(3) apply (cases ts; fastforce)+
    done
qed

termination makeLispObject
  apply (relation "measure (\<lambda>x. case x of Inl ts \<Rightarrow> 2 * length ts + 1 | Inr ts \<Rightarrow> 2 * length ts)")
  apply (auto dest!: parse_length(1))
  apply (case_tac token_stream; simp)+
  done

section \<open>The printer\<close>

text \<open>
  \<^verbatim>\<open>sprintf(buf, "%lld", n)\<close>. The format \<^verbatim>\<open>"%f"\<close> of a \<^verbatim>\<open>double\<close> is a parameter of the
  printer (\<open>fmt_f\<close>, from the 64 bits of the value to its text).
\<close>

definition digit_char :: "nat \<Rightarrow> char" where
  "digit_char d = char_of (48 + d)"

fun show_nat :: "nat \<Rightarrow> string" where
  "show_nat n = (if n < 10 then [digit_char n] else show_nat (n div 10) @ [digit_char (n mod 10)])"

definition sprintf_lld :: "lisp_int_t \<Rightarrow> string" where
  "sprintf_lld n =
     (if sint n < 0 then CHR ''-'' # show_nat (nat (- sint n)) else show_nat (nat (sint n)))"

fun printLispTree :: "(64 word \<Rightarrow> string) \<Rightarrow> lisp_cell \<Rightarrow> string"
  and printLispObject :: "(64 word \<Rightarrow> string) \<Rightarrow> lisp_cell option \<Rightarrow> string" where
  "printLispTree fmt_f (Cells a d) =
     printLispObject fmt_f a @
       (case d of
          None \<Rightarrow> '')''
        | Some dc \<Rightarrow>
            if dc = nil_sexpr then '')''
            else if isLispCells dc then '' '' @ printLispTree fmt_f dc
            else '' . '' @ printLispObject fmt_f d @ '')'')"
| "printLispTree fmt_f (Integer n) = ''null)''"
| "printLispTree fmt_f (Double x) = ''null)''"
| "printLispTree fmt_f (Symbol s) = ''null)''"
| "printLispTree fmt_f (Sentinel b) = ''null)''"
| "printLispTree fmt_f (CString s) = ''null)''"
| "printLispTree fmt_f (Proc p) = ''null)''"
| "printLispTree fmt_f (Lambda ps b e) = ''null)''"
| "printLispObject fmt_f None = ''null''"
| "printLispObject fmt_f (Some (Lambda ps b e)) = ''<Lambda>''"
| "printLispObject fmt_f (Some (Cells a d)) = ''('' @ printLispTree fmt_f (Cells a d)"
| "printLispObject fmt_f (Some (Integer n)) = sprintf_lld n"
| "printLispObject fmt_f (Some (Double x)) = fmt_f x"
| "printLispObject fmt_f (Some (CString s)) = s"
| "printLispObject fmt_f (Some (Symbol s)) = s"
| "printLispObject fmt_f (Some (Sentinel b)) = builtin_name b"
| "printLispObject fmt_f (Some (Proc p)) = ''bad symbol''"

section \<open>One round of \<^verbatim>\<open>repl\<close>\<close>

text \<open>
  The count of the parentheses in \<^verbatim>\<open>repl\<close>, and the body of its loop for one line read by
  \<^verbatim>\<open>std::getline\<close>: the lines it writes to \<^verbatim>\<open>std::cout\<close> (the prompt starts the first one)
  are appended to the state.
\<close>

fun nparens :: "Tokens \<Rightarrow> int" where
  "nparens [] = 0"
| "nparens (token # tokens) =
     (if at0 token = CHR ''('' then 1 else if at0 token = CHR '')'' then - 1 else 0) + nparens tokens"

text \<open>
  The first steps of the loop body: the line is tokenized, a line whose parentheses do
  not balance is discarded (\<open>None\<close>), otherwise one tree is built from the first token;
  the result holds the tree and the position \<^verbatim>\<open>it_next\<close>.
\<close>

definition repl_read :: "string \<Rightarrow> error + (lisp_cell option \<times> Tokens) option" where
  "repl_read line =
    (case tokenize line of
       Inl e \<Rightarrow> Inl e
     | Inr tokens \<Rightarrow>
        if nparens tokens \<noteq> 0 then Inr None
        else (case makeLispObject tokens of Inl e \<Rightarrow> Inl e | Inr r \<Rightarrow> Inr (Some r)))"

definition repl_round ::
  "(64 word \<Rightarrow> string) \<Rightarrow> nat \<Rightarrow> string \<Rightarrow> string \<Rightarrow> nat \<Rightarrow> state \<Rightarrow> error + state" where
  "repl_round fmt_f fuel prompt line env st =
    (case repl_read line of
       Inl e \<Rightarrow> Inl e
     | Inr None \<Rightarrow> Inr (st\<lparr>cout := cout st @ [prompt @ ''Unbalanced parentheses.'']\<rparr>)
     | Inr (Some (sexpr, it_next)) \<Rightarrow>
        (case eval fuel sexpr env
                (st\<lparr>cout := cout st @ [prompt @ [CHR 0x22] @ printLispObject fmt_f sexpr @ [CHR 0x22]],
                    undefined_symbols := []\<rparr>) of
           Inl e \<Rightarrow> Inl e
         | Inr (val, st1) \<Rightarrow>
            (let st2 = st1\<lparr>cout := cout st1 @ [printLispObject fmt_f val]\<rparr> in
             if length it_next \<noteq> 1 then
               (case it_next of
                  [] \<Rightarrow> Inl EndOfTokens
                | t # _ \<Rightarrow> Inr (st2\<lparr>cout := cout st2 @ [''extraneous input: '' @ t @ ''...'']\<rparr>))
             else Inr st2)))"

section \<open>Call forms over integer literals\<close>

text \<open>
  The operands \<open>x y\<^sub>1 \<dots> y\<^sub>n\<close> of a call as \<^verbatim>\<open>makeLispTree\<close> lays them out: a chain of
  \<^verbatim>\<open>lisp_cells\<close> to the right, with the last operand itself in the last \<^verbatim>\<open>cdr\<close>.
  \<open>call_form s x ys\<close> is the form \<^verbatim>\<open>(s x y1 ... yn)\<close>. \<open>reduce_right\<close> combines the operands
  from the right, as the recursion of \<^verbatim>\<open>proc_arith_impl\<close> does.
\<close>

fun operands :: "lisp_int_t \<Rightarrow> lisp_int_t list \<Rightarrow> lisp_cell" where
  "operands x [] = Integer x"
| "operands x (y # ys) = Cells (Some (Integer x)) (Some (operands y ys))"

fun reduce_right :: "binop_func \<Rightarrow> lisp_int_t \<Rightarrow> lisp_int_t list \<Rightarrow> error + lisp_int_t" where
  "reduce_right Op x [] = Inr x"
| "reduce_right Op x (y # ys) =
     (case reduce_right Op y ys of Inl e \<Rightarrow> Inl e | Inr r \<Rightarrow> Op x r)"

definition call_form :: "string \<Rightarrow> lisp_int_t \<Rightarrow> lisp_int_t list \<Rightarrow> lisp_cell option" where
  "call_form s x ys = Some (Cells (Some (Symbol s)) (Some (operands x ys)))"

text \<open>
  The reading of a comparison chain in the specification: every adjacent pair of the
  operands \<open>x y\<^sub>1 \<dots> y\<^sub>n\<close> satisfies the relation.
\<close>

fun adjacent_pairs_hold :: "cmpop_func \<Rightarrow> lisp_int_t \<Rightarrow> lisp_int_t list \<Rightarrow> bool" where
  "adjacent_pairs_hold Op x [] = True"
| "adjacent_pairs_hold Op x (y # ys) = (Op x y \<and> adjacent_pairs_hold Op y ys)"

text \<open>
  \<open>unbound_in_chain d st env s\<close>: the chain of environments from \<open>env\<close> reaches the root
  within \<open>d\<close> objects, all of them live, and none of them binds \<open>s\<close>.
  \<open>setq_form s n\<close> is the form \<^verbatim>\<open>(setq s n)\<close>, \<open>define_form s n\<close> the form \<^verbatim>\<open>(define s n)\<close> and
  \<open>if_form tail\<close> the call of \<^verbatim>\<open>if\<close> on a tail.
\<close>

fun unbound_in_chain :: "nat \<Rightarrow> state \<Rightarrow> nat \<Rightarrow> string \<Rightarrow> bool" where
  "unbound_in_chain 0 st env s = False"
| "unbound_in_chain (Suc d) st env s =
     (case map_of (heap st) env of
        None \<Rightarrow> False
      | Some e \<Rightarrow>
          map_of (env_map e) s = None \<and>
          (case outer_env e of None \<Rightarrow> True | Some out \<Rightarrow> unbound_in_chain d st out s))"

definition setq_form :: "string \<Rightarrow> lisp_int_t \<Rightarrow> lisp_cell option" where
  "setq_form s n =
     Some (Cells (Some (Symbol ''setq'')) (Some (Cells (Some (Symbol s)) (Some (Integer n)))))"


definition define_form :: "string \<Rightarrow> lisp_int_t \<Rightarrow> lisp_cell option" where
  "define_form s n =
     Some (Cells (Some (Symbol ''define'')) (Some (Cells (Some (Symbol s)) (Some (Integer n)))))"

text \<open>
  Forms evaluated one after the other against one environment, as successive rounds of
  \<^verbatim>\<open>repl\<close> evaluate them; the value is that of the last form. \<open>define_f_form\<close> is
  \<^verbatim>\<open>(define f (lambda () x))\<close> and \<open>define_g_form\<close> is \<^verbatim>\<open>(define g (lambda (x y) (f 0)))\<close> as
  \<^verbatim>\<open>makeLispTree\<close> builds them; \<open>call_f_form\<close> is the call with head \<^verbatim>\<open>f\<close> and no operand,
  \<open>call_g_form c d\<close> the call \<^verbatim>\<open>(g c d)\<close>. \<open>result_value\<close> drops the state of a result.
\<close>

fun eval_sequence :: "nat \<Rightarrow> lisp_cell option list \<Rightarrow> nat \<Rightarrow> state \<Rightarrow> lisp_cell option result" where
  "eval_sequence n [] env st = Inr (None, st)"
| "eval_sequence n [e] env st = eval n e env st"
| "eval_sequence n (e # es) env st =
     (case eval n e env st of Inl err \<Rightarrow> Inl err | Inr (_, st1) \<Rightarrow> eval_sequence n es env st1)"

definition define_f_form :: "lisp_cell option" where
  "define_f_form =
     Some (Cells (Some (Symbol ''define'')) (Some (Cells (Some (Symbol ''f'')) (Some (Cells (Some (Symbol ''lambda'')) (Some (Cells None (Some (Symbol ''x'')))))))))"

definition define_g_form :: "lisp_cell option" where
  "define_g_form =
     Some (Cells (Some (Symbol ''define'')) (Some (Cells (Some (Symbol ''g'')) (Some (Cells (Some (Symbol ''lambda'')) (Some (Cells (Some (Cells (Some (Symbol ''x'')) (Some (Symbol ''y'')))) (Some (Cells (Some (Symbol ''f'')) (Some (Integer 0)))))))))))"

definition call_f_form :: "lisp_cell option" where
  "call_f_form = Some (Cells (Some (Symbol ''f'')) None)"

definition call_g_form :: "lisp_int_t \<Rightarrow> lisp_int_t \<Rightarrow> lisp_cell option" where
  "call_g_form c d = Some (Cells (Some (Symbol ''g'')) (Some (Cells (Some (Integer c)) (Some (Integer d)))))"

definition result_value :: "'a result \<Rightarrow> error + 'a" where
  "result_value r = (case r of Inl e \<Rightarrow> Inl e | Inr (v, st) \<Rightarrow> Inr v)"

section \<open>Token sequences and the trees built from them\<close>

text \<open>
  \<open>atom_cell\<close> is the cell \<^verbatim>\<open>makeLispObject\<close> makes of a token that does not open a list.
  \<open>closes d ts\<close>: reading \<open>ts\<close> with \<open>d\<close> further lists open, the token that closes the
  current list is reached. A \<open>sexp\<close> is the syntax of the grammar in the comment above
  \<^verbatim>\<open>makeLispObject\<close>, \<open>tokens_of\<close> its tokens and \<open>value_of\<close> the tree the builder returns
  for it: \<open>chain\<close> follows \<^verbatim>\<open>if (cdr == nullptr) return car; return new lisp_cell(car, cdr)\<close>,
  so the last object of a list stands in the last \<^verbatim>\<open>cdr\<close> itself. \<open>proper_list\<close> is the list
  that ends with an absent tail, as the specification describes lists.
\<close>

definition atom_cell :: "string \<Rightarrow> lisp_cell option" where
  "atom_cell token =
     (if isdigit (at0 token) then Some (Integer (strtoll token))
      else if at0 token = CHR 0x22 then Some (CString token)
      else Some (Symbol (to_lower token)))"

fun closes :: "nat \<Rightarrow> Tokens \<Rightarrow> bool" where
  "closes d [] = False"
| "closes d (t # ts) =
     (if at0 t = CHR '')'' then (d = 0 \<or> closes (d - 1) ts)
      else if at0 t = CHR ''('' then closes (Suc d) ts
      else closes d ts)"

datatype sexp = Atom string | List "sexp list"

fun tokens_of :: "sexp \<Rightarrow> Tokens" where
  "tokens_of (Atom t) = [t]"
| "tokens_of (List xs) = ''('' # concat (map tokens_of xs) @ ['')'']"

fun chain :: "lisp_cell option list \<Rightarrow> lisp_cell option" where
  "chain [] = None"
| "chain (v # vs) = (case chain vs of None \<Rightarrow> v | Some d \<Rightarrow> Some (Cells v (Some d)))"

fun value_of :: "sexp \<Rightarrow> lisp_cell option" where
  "value_of (Atom t) = atom_cell t"
| "value_of (List xs) = chain (map value_of xs)"

fun well_formed :: "sexp \<Rightarrow> bool" where
  "well_formed (Atom t) = (at0 t \<noteq> CHR ''('' \<and> at0 t \<noteq> CHR '')'')"
| "well_formed (List xs) = list_all well_formed xs"

fun proper_list :: "lisp_cell option list \<Rightarrow> lisp_cell option" where
  "proper_list [] = None"
| "proper_list (v # vs) = Some (Cells v (proper_list vs))"

text \<open>
  \<open>nested heads final\<close> is the chain of \<^verbatim>\<open>lisp_cells\<close> with the given heads, in order, and
  \<open>final\<close> in the last \<^verbatim>\<open>cdr\<close>. \<open>reads_null\<close> holds of \<^verbatim>\<open>()\<close> and of the lists of such lists
  only. \<open>tails_present\<close>: no \<^verbatim>\<open>lisp_cells\<close> in the tree has an absent \<^verbatim>\<open>cdr\<close>.
\<close>

fun nested :: "lisp_cell option list \<Rightarrow> lisp_cell option \<Rightarrow> lisp_cell option" where
  "nested [] final = final"
| "nested (v # vs) final = Some (Cells v (nested vs final))"

fun reads_null :: "sexp \<Rightarrow> bool" where
  "reads_null (Atom t) = False"
| "reads_null (List xs) = list_all reads_null xs"

fun tails_present :: "lisp_cell option \<Rightarrow> bool" where
  "tails_present None = True"
| "tails_present (Some (Cells a d)) = (d \<noteq> None \<and> tails_present a \<and> tails_present d)"
| "tails_present (Some c) = True"

text \<open>\<open>quote_form tail\<close> is the pair with head \<^verbatim>\<open>quote\<close> and the given tail.\<close>

definition quote_form :: "lisp_cell option \<Rightarrow> lisp_cell option" where
  "quote_form tail = Some (Cells (Some (Symbol ''quote'')) tail)"

section \<open>The text of a tree and its tokens\<close>







section \<open>Facts about the global environment and the sentinels\<close>

lemma add_globals_Nil:
  "add_globals [] =
    [(''nil'', Some nil_sexpr), (''#f'', Some false_sexpr), (''#t'', Some true_sexpr),
     (''+'', Some (Proc addr_proc_add)), (''-'', Some (Proc addr_proc_sub)),
     (''*'', Some (Proc addr_proc_mul)), (''/'', Some (Proc addr_proc_div)),
     (''>'', Some (Proc addr_proc_cmpgt)), (''<'', Some (Proc addr_proc_cmplt)),
     (''<='', Some (Proc addr_proc_cmple)), (''>='', Some (Proc addr_proc_cmpge)),
     (''eq'', Some (Proc addr_proc_cmpeq)), (''ne'', Some (Proc addr_proc_cmpne)),
     (''begin'', Some (Proc addr_eval_begin)), (''car'', Some (Proc addr_eval_car)),
     (''cdr'', Some (Proc addr_eval_cdr)), (''cons'', Some (Proc addr_eval_cons)),
     (''define'', Some (Proc addr_eval_define)), (''if'', Some (Proc addr_eval_if)),
     (''list'', Some (Proc addr_eval_list)), (''setq'', Some (Proc addr_eval_setq))]"
  by (simp add: add_globals_def)

lemma sentinels_distinct [simp]:
  "nil_sexpr \<noteq> bad_sexpr" "false_sexpr \<noteq> nil_sexpr" "false_sexpr \<noteq> bad_sexpr"
  "true_sexpr \<noteq> nil_sexpr" "true_sexpr \<noteq> bad_sexpr" "false_sexpr \<noteq> true_sexpr"
  by (simp_all add: nil_sexpr_def bad_sexpr_def false_sexpr_def true_sexpr_def)

section \<open>Malformed call forms\<close>

text \<open>
  Claim C7, as the code has it. A pair whose head is absent, is the sentinel \<^verbatim>\<open>nil_sexpr\<close> or
  \<^verbatim>\<open>bad_sexpr\<close>, or is a constant (an integer, a double or a quoted string) evaluates to
  \<^verbatim>\<open>bad_sexpr\<close>, in every environment and state, and the state is unchanged. The test of
  \<^verbatim>\<open>eval\<close> names only these two sentinels: the heads \<^verbatim>\<open>false_sexpr\<close> and \<^verbatim>\<open>true_sexpr\<close> are
  looked up as the symbols \<^verbatim>\<open>#f\<close> and \<^verbatim>\<open>#t\<close>.
\<close>

theorem eval_malformed_head:
  "eval (Suc n) (Some (Cells None d)) env st = Inr (Some bad_sexpr, st)
   \<and> eval (Suc n) (Some (Cells (Some nil_sexpr) d)) env st = Inr (Some bad_sexpr, st)
   \<and> eval (Suc n) (Some (Cells (Some bad_sexpr) d)) env st = Inr (Some bad_sexpr, st)
   \<and> eval (Suc n) (Some (Cells (Some (Integer i)) d)) env st = Inr (Some bad_sexpr, st)
   \<and> eval (Suc n) (Some (Cells (Some (Double x)) d)) env st = Inr (Some bad_sexpr, st)
   \<and> eval (Suc n) (Some (Cells (Some (CString s)) d)) env st = Inr (Some bad_sexpr, st)"
  by (simp add: isAtom_def nil_sexpr_def bad_sexpr_def)

text \<open>
  Claim C7 as stated fails for the heads \<^verbatim>\<open>false_sexpr\<close> and \<^verbatim>\<open>true_sexpr\<close>: in the global
  environment the symbol \<^verbatim>\<open>#f\<close> (\<^verbatim>\<open>#t\<close>) is bound to a cell that is neither a closure nor
  a native procedure, so \<^verbatim>\<open>eval_proc\<close> returns \<^verbatim>\<open>nullptr\<close>, not \<^verbatim>\<open>bad_sexpr\<close>.
\<close>

theorem eval_sentinel_head_counterexample:
  "eval (Suc (Suc 0)) (Some (Cells (Some false_sexpr) None)) global_env initial_state
     = Inr (None, initial_state)
   \<and> eval (Suc (Suc 0)) (Some (Cells (Some true_sexpr) None)) global_env initial_state
     = Inr (None, initial_state)"
  by (simp add: isAtom_def isSymbol_def nil_sexpr_def bad_sexpr_def false_sexpr_def true_sexpr_def
        initial_state_def global_env_def add_globals_Nil eval_proc_def)

section \<open>Arithmetic builtins\<close>

lemma FindSymbol_more_fuel:
  "FindSymbol k this s st = Inr r \<Longrightarrow> FindSymbol (k + j) this s st = Inr r"
proof (induction k arbitrary: this)
  case 0
  then show ?case by simp
next
  case (Suc k)
  then show ?case
    by (auto split: option.splits if_splits)
qed

lemma eval_Integer: "eval (Suc n) (Some (Integer x)) env st = Inr (Some (Integer x), st)"
  by simp

lemma eval_operands_Cells:
  "eval (Suc n) (Some (operands y (z # zs))) env st = Inr (Some bad_sexpr, st)"
  by (simp add: isAtom_def nil_sexpr_def bad_sexpr_def)

lemma proc_arith_impl_atom:
  "proc_arith_impl ev (Suc k) (Some (Integer x)) env Op st = Inr (Some x, st)"
  by (simp add: isAtom_def)

lemma proc_arith_impl_Cells:
  assumes "ev a env st = Inr (carval, st1)"
    and "proc_arith_impl ev k carval env Op st1 = Inr (Some n1, st2)"
    and "ev (Some d) env st2 = Inr (cdrval, st3)"
  shows "proc_arith_impl ev (Suc k) (Some (Cells a (Some d))) env Op st =
    (case (case cdrval of None \<Rightarrow> None | Some v \<Rightarrow> getValue_int v) of
       Some n2 \<Rightarrow> (case Op n1 n2 of Inl e \<Rightarrow> Inl e | Inr n \<Rightarrow> Inr (Some n, st3))
     | None \<Rightarrow>
         (case proc_arith_impl ev k (Some d) env Op st3 of
            Inl e \<Rightarrow> Inl e
          | Inr (None, st4) \<Rightarrow> Inr (None, st4)
          | Inr (Some n2, st4) \<Rightarrow>
              (case Op n1 n2 of Inl e \<Rightarrow> Inl e | Inr n \<Rightarrow> Inr (Some n, st4))))"
  by (simp add: assms isAtom_def cong: option.case_cong)

lemma proc_arith_impl_operands:
  "proc_arith_impl (eval (Suc n)) (Suc (length ys + j)) (Some (operands x ys)) env Op st =
     (case reduce_right Op x ys of Inl e \<Rightarrow> Inl e | Inr r \<Rightarrow> Inr (Some r, st))"
proof (induction ys arbitrary: x)
  case Nil
  show ?case by (simp only: operands.simps proc_arith_impl_atom reduce_right.simps sum.case)
next
  case (Cons y ys)
  let ?E = "eval (Suc n)"
  have car: "?E (Some (Integer x)) env st = Inr (Some (Integer x), st)"
    by (rule eval_Integer)
  have atom: "proc_arith_impl ?E (Suc (length ys + j)) (Some (Integer x)) env Op st = Inr (Some x, st)"
    by (rule proc_arith_impl_atom)
  have fuel: "Suc (length (y # ys) + j) = Suc (Suc (length ys + j))"
    by simp
  show ?case
  proof (cases ys)
    case Nil
    have cdr: "?E (Some (operands y ys)) env st = Inr (Some (Integer y), st)"
      unfolding Nil operands.simps by (rule eval_Integer)
    show ?thesis
      unfolding fuel operands.simps proc_arith_impl_Cells [OF car atom cdr]
      by (simp add: Nil split: sum.splits)
  next
    case (Cons z zs)
    have cdr: "?E (Some (operands y ys)) env st = Inr (Some bad_sexpr, st)"
      unfolding Cons by (rule eval_operands_Cells)
    show ?thesis
      unfolding fuel operands.simps proc_arith_impl_Cells [OF car atom cdr] Cons.IH
      by (simp add: bad_sexpr_def split: sum.splits)
  qed
qed


lemma reduce_right_add: "reduce_right op_add x ys = Inr (foldl (+) x ys)"
proof (induction ys arbitrary: x)
  case Nil
  show ?case by simp
next
  case (Cons y ys)
  have assoc: "foldl (+) (x + y) ys = x + foldl (+) y ys"
    by (induction ys arbitrary: y) (simp_all add: add.assoc)
  have step: "\<And>r. op_add x r = Inr (x + r)"
    by (simp add: op_add_def)
  have "reduce_right op_add x (y # ys) = op_add x (foldl (+) y ys)"
    by (simp only: reduce_right.simps Cons.IH sum.case)
  also have "\<dots> = Inr (x + foldl (+) y ys)"
    by (simp only: step)
  also have "\<dots> = Inr (foldl (+) x (y # ys))"
    using assoc by simp
  finally show ?case .
qed

lemma reduce_right_mul: "reduce_right op_mul x ys = Inr (foldl (*) x ys)"
proof (induction ys arbitrary: x)
  case Nil
  show ?case by simp
next
  case (Cons y ys)
  have assoc: "foldl (*) (x * y) ys = x * foldl (*) y ys"
    by (induction ys arbitrary: y) (simp_all add: mult.assoc)
  have step: "\<And>r. op_mul x r = Inr (x * r)"
    by (simp add: op_mul_def)
  have "reduce_right op_mul x (y # ys) = op_mul x (foldl (*) y ys)"
    by (simp only: reduce_right.simps Cons.IH sum.case)
  also have "\<dots> = Inr (x * foldl (*) y ys)"
    by (simp only: step)
  also have "\<dots> = Inr (foldl (*) x (y # ys))"
    using assoc by simp
  finally show ?case .
qed

lemma eval_native_call:
  assumes "FindSymbol k env s st = Inr (Some (Some (Proc p)), st)"
    and "s \<noteq> ''quote''" and "s \<noteq> ''lambda''"
  shows "eval (Suc (k + j)) (Some (Cells (Some (Symbol s)) d)) env st
           = call_native p (eval (k + j)) (k + j) d env st"
  using FindSymbol_more_fuel [OF assms(1), of j] assms(2,3)
  by (simp add: isAtom_def isSymbol_def nil_sexpr_def bad_sexpr_def eval_proc_def)


lemma FindSymbol_fuel_Suc:
  assumes "FindSymbol k env s st = Inr r"
  obtains k' where "k = Suc k'"
  using assms by (cases k) simp_all

lemma eval_arith_chain:
  assumes find: "FindSymbol k env s st = Inr (Some (Some (Proc p)), st)"
    and names: "s \<noteq> ''quote''" "s \<noteq> ''lambda''"
    and native: "\<And>ev f d e t. call_native p ev f d e t = proc_arith_main ev f d e Op t"
  shows "eval (Suc (k + length ys + j)) (call_form s x ys) env st =
           (case reduce_right Op x ys of
              Inl e \<Rightarrow> Inl e
            | Inr r \<Rightarrow> Inr (Some (Integer r), st))"
proof -
  obtain k' where k: "k = Suc k'"
    using find by (rule FindSymbol_fuel_Suc)
  have fuel: "k + (length ys + j) = Suc (length ys + (k' + j))"
    by (simp add: k)
  have "eval (Suc (k + (length ys + j))) (call_form s x ys) env st
          = proc_arith_main (eval (k + (length ys + j))) (k + (length ys + j))
              (Some (operands x ys)) env Op st"
    unfolding call_form_def eval_native_call [OF find names] native ..
  also have "\<dots> = (case reduce_right Op x ys of
                       Inl e \<Rightarrow> Inl e
                     | Inr r \<Rightarrow> Inr (Some (Integer r), st))"
    unfolding fuel proc_arith_main_def proc_arith_impl_operands
    by (simp split: sum.splits)
  finally show ?thesis
    by (simp add: add.assoc)
qed

lemma native_arith:
  "call_native addr_proc_add ev f d e t = proc_arith_main ev f d e op_add t"
  "call_native addr_proc_sub ev f d e t = proc_arith_main ev f d e op_sub t"
  "call_native addr_proc_mul ev f d e t = proc_arith_main ev f d e op_mul t"
  "call_native addr_proc_div ev f d e t = proc_arith_main ev f d e op_div t"
  by (simp_all add: call_native_def proc_add_def proc_sub_def proc_mul_def proc_div_def)

lemma quoted_names [simp]:
  "''+'' \<noteq> ''quote''" "''+'' \<noteq> ''lambda''" "''-'' \<noteq> ''quote''" "''-'' \<noteq> ''lambda''"
  "''*'' \<noteq> ''quote''" "''*'' \<noteq> ''lambda''" "''/'' \<noteq> ''quote''" "''/'' \<noteq> ''lambda''"
  by simp_all

lemma FindSymbol_global:
  "FindSymbol (Suc 0) global_env ''+'' initial_state = Inr (Some (Some (Proc addr_proc_add)), initial_state)"
  "FindSymbol (Suc 0) global_env ''-'' initial_state = Inr (Some (Some (Proc addr_proc_sub)), initial_state)"
  "FindSymbol (Suc 0) global_env ''*'' initial_state = Inr (Some (Some (Proc addr_proc_mul)), initial_state)"
  "FindSymbol (Suc 0) global_env ''/'' initial_state = Inr (Some (Some (Proc addr_proc_div)), initial_state)"
  by (simp_all add: initial_state_def global_env_def add_globals_Nil)

text \<open>
  Claim C1, as the code has it. In an environment where the symbols \<^verbatim>\<open>+ - * /\<close> resolve to
  the native procedures, and with enough fuel: the form \<^verbatim>\<open>(+ a b)\<close> evaluates to the integer
  \<open>a + b\<close>, \<^verbatim>\<open>(- a b)\<close> to \<open>a - b\<close> and \<^verbatim>\<open>(* a b)\<close> to \<open>a * b\<close>, in 64-bit two's complement
  arithmetic; \<^verbatim>\<open>(/ a b)\<close> evaluates to the quotient truncated towards zero when \<open>b\<close> is not
  zero and the quotient is representable (not the least integer divided by \<open>-1\<close>); and for
  two or more operands \<^verbatim>\<open>(+ x y1 ... yn)\<close> is the sum and \<^verbatim>\<open>(* x y1 ... yn)\<close> the product of
  the operands taken from left to right. The state is unchanged.
\<close>

theorem arithmetic_forms:
  assumes add: "FindSymbol k env ''+'' st = Inr (Some (Some (Proc addr_proc_add)), st)"
    and sub: "FindSymbol k env ''-'' st = Inr (Some (Some (Proc addr_proc_sub)), st)"
    and mul: "FindSymbol k env ''*'' st = Inr (Some (Some (Proc addr_proc_mul)), st)"
    and div: "FindSymbol k env ''/'' st = Inr (Some (Some (Proc addr_proc_div)), st)"
  shows "eval (Suc (k + 1 + j)) (call_form ''+'' a [b]) env st = Inr (Some (Integer (a + b)), st)
    \<and> eval (Suc (k + 1 + j)) (call_form ''-'' a [b]) env st = Inr (Some (Integer (a - b)), st)
    \<and> eval (Suc (k + 1 + j)) (call_form ''*'' a [b]) env st = Inr (Some (Integer (a * b)), st)
    \<and> (b \<noteq> 0 \<and> \<not> (a = - (2 ^ 63) \<and> b = - 1) \<longrightarrow>
         eval (Suc (k + 1 + j)) (call_form ''/'' a [b]) env st
           = Inr (Some (Integer (word_of_int (sint a sdiv sint b))), st))
    \<and> eval (Suc (k + length (y # ys) + j)) (call_form ''+'' x (y # ys)) env st
           = Inr (Some (Integer (foldl (+) x (y # ys))), st)
    \<and> eval (Suc (k + length (y # ys) + j)) (call_form ''*'' x (y # ys)) env st
           = Inr (Some (Integer (foldl (*) x (y # ys))), st)"
proof -
  have 1: "eval (Suc (k + 1 + j)) (call_form ''+'' a [b]) env st = Inr (Some (Integer (a + b)), st)"
    using eval_arith_chain [OF add _ _ native_arith(1), of "[b]" j a]
    by (simp add: op_add_def)
  have 2: "eval (Suc (k + 1 + j)) (call_form ''-'' a [b]) env st = Inr (Some (Integer (a - b)), st)"
    using eval_arith_chain [OF sub _ _ native_arith(2), of "[b]" j a]
    by (simp add: op_sub_def)
  have 3: "eval (Suc (k + 1 + j)) (call_form ''*'' a [b]) env st = Inr (Some (Integer (a * b)), st)"
    using eval_arith_chain [OF mul _ _ native_arith(3), of "[b]" j a]
    by (simp add: op_mul_def)
  have 4: "b \<noteq> 0 \<and> \<not> (a = - (2 ^ 63) \<and> b = - 1) \<longrightarrow>
         eval (Suc (k + 1 + j)) (call_form ''/'' a [b]) env st
           = Inr (Some (Integer (word_of_int (sint a sdiv sint b))), st)"
    using eval_arith_chain [OF div _ _ native_arith(4), of "[b]" j a]
    by (auto simp add: op_div_def)
  have 5: "eval (Suc (k + length (y # ys) + j)) (call_form ''+'' x (y # ys)) env st
           = Inr (Some (Integer (foldl (+) x (y # ys))), st)"
    using eval_arith_chain [OF add _ _ native_arith(1), of "y # ys" j x]
    by (simp only: reduce_right_add sum.case quoted_names simp_thms)
  have 6: "eval (Suc (k + length (y # ys) + j)) (call_form ''*'' x (y # ys)) env st
           = Inr (Some (Integer (foldl (*) x (y # ys))), st)"
    using eval_arith_chain [OF mul _ _ native_arith(3), of "y # ys" j x]
    by (simp only: reduce_right_mul sum.case quoted_names simp_thms)
  from 1 2 3 4 5 6 show ?thesis by blast
qed

theorem arithmetic_forms_witness:
  "eval (Suc (Suc (Suc 0))) (call_form ''+'' (- 7) [2]) global_env initial_state
      = Inr (Some (Integer (- 5)), initial_state)
   \<and> eval (Suc (Suc (Suc 0))) (call_form ''-'' (- 7) [2]) global_env initial_state
      = Inr (Some (Integer (- 9)), initial_state)
   \<and> eval (Suc (Suc (Suc 0))) (call_form ''*'' (- 7) [2]) global_env initial_state
      = Inr (Some (Integer (- 14)), initial_state)
   \<and> eval (Suc (Suc (Suc 0))) (call_form ''/'' (- 7) [2]) global_env initial_state
      = Inr (Some (Integer (- 3)), initial_state)
   \<and> eval (Suc (Suc (Suc (Suc (Suc 0))))) (call_form ''+'' 1 [2, 3, 4]) global_env initial_state
      = Inr (Some (Integer 10), initial_state)
   \<and> eval (Suc (Suc (Suc (Suc (Suc 0))))) (call_form ''*'' 1 [2, 3, 4]) global_env initial_state
      = Inr (Some (Integer 24), initial_state)"
  using arithmetic_forms [OF FindSymbol_global, of 0 "- 7" 2 2 "[3, 4]" 1]
  by (simp add: signed_divide_int_def)


text \<open>
  Claim C1 as stated, with only \<open>b \<noteq> 0\<close> for the division, fails at the least integer
  divided by \<open>-1\<close>: the quotient \<open>2 ^ 63\<close> is not an \<^verbatim>\<open>int64_t\<close>, and \<^verbatim>\<open>n1/n2\<close> traps.
\<close>

theorem division_overflow_counterexample:
  "eval (Suc (Suc (Suc 0))) (call_form ''/'' (- (2 ^ 63)) [- 1]) global_env initial_state
     = Inl DivisionTrap"
  using eval_arith_chain [OF FindSymbol_global(4) _ _ native_arith(4), of "[- 1]" 0 "- (2 ^ 63)"]
  by (simp add: op_div_def)


section \<open>Comparison builtins\<close>

lemma proc_compare_impl_atom:
  "proc_compare_impl ev (Suc k) (Some (Integer x)) env Op st = Inr (Some x, st)"
  by (simp add: isAtom_def)

lemma proc_compare_impl_Cells:
  assumes "ev a env st = Inr (carval, st1)"
    and "proc_compare_impl ev k carval env Op st1 = Inr (Some n, st2)"
    and "ev (Some d) env st2 = Inr (cdrval, st3)"
  shows "proc_compare_impl ev (Suc k) (Some (Cells a (Some d))) env Op st =
    (case (case cdrval of None \<Rightarrow> None | Some v \<Rightarrow> getValue_int v) of
       Some n2 \<Rightarrow> Inr (if Op n n2 then Some n else None, st3)
     | None \<Rightarrow>
         (case proc_compare_impl ev k (Some d) env Op st3 of
            Inl e \<Rightarrow> Inl e
          | Inr (None, st4) \<Rightarrow> Inr (None, st4)
          | Inr (Some n2, st4) \<Rightarrow> Inr (if Op n n2 then Some n else None, st4)))"
  by (simp add: assms isAtom_def cong: option.case_cong)

lemma proc_compare_impl_operands:
  "proc_compare_impl (eval (Suc n)) (Suc (length ys + j)) (Some (operands x ys)) env Op st =
     Inr (if adjacent_pairs_hold Op x ys then Some x else None, st)"
proof (induction ys arbitrary: x)
  case Nil
  show ?case
    by (simp only: operands.simps proc_compare_impl_atom adjacent_pairs_hold.simps if_True)
next
  case (Cons y ys)
  let ?E = "eval (Suc n)"
  have car: "?E (Some (Integer x)) env st = Inr (Some (Integer x), st)"
    by (rule eval_Integer)
  have atom: "proc_compare_impl ?E (Suc (length ys + j)) (Some (Integer x)) env Op st = Inr (Some x, st)"
    by (rule proc_compare_impl_atom)
  have fuel: "Suc (length (y # ys) + j) = Suc (Suc (length ys + j))"
    by simp
  show ?case
  proof (cases ys)
    case Nil
    have cdr: "?E (Some (operands y ys)) env st = Inr (Some (Integer y), st)"
      unfolding Nil operands.simps by (rule eval_Integer)
    show ?thesis
      unfolding fuel operands.simps proc_compare_impl_Cells [OF car atom cdr]
      by (simp add: Nil)
  next
    case (Cons z zs)
    have cdr: "?E (Some (operands y ys)) env st = Inr (Some bad_sexpr, st)"
      unfolding Cons by (rule eval_operands_Cells)
    show ?thesis
      unfolding fuel operands.simps proc_compare_impl_Cells [OF car atom cdr] Cons.IH
      by (simp add: bad_sexpr_def)
  qed
qed

lemma eval_compare_chain:
  assumes find: "FindSymbol k env s st = Inr (Some (Some (Proc p)), st)"
    and names: "s \<noteq> ''quote''" "s \<noteq> ''lambda''"
    and native: "\<And>ev f d e t. call_native p ev f d e t = proc_compare_main ev f d e Op t"
  shows "eval (Suc (k + length ys + j)) (call_form s x ys) env st =
           Inr (Some (if adjacent_pairs_hold Op x ys then true_sexpr else false_sexpr), st)"
proof -
  obtain k' where k: "k = Suc k'"
    using find by (rule FindSymbol_fuel_Suc)
  have fuel: "k + (length ys + j) = Suc (length ys + (k' + j))"
    by (simp add: k)
  have "eval (Suc (k + (length ys + j))) (call_form s x ys) env st
          = proc_compare_main (eval (k + (length ys + j))) (k + (length ys + j))
              (Some (operands x ys)) env Op st"
    unfolding call_form_def eval_native_call [OF find names] native ..
  also have "\<dots> = Inr (Some (if adjacent_pairs_hold Op x ys then true_sexpr else false_sexpr), st)"
    unfolding fuel proc_compare_main_def proc_compare_impl_operands
    by simp
  finally show ?thesis
    by (simp add: add.assoc)
qed

lemma native_compare:
  "call_native addr_proc_cmpgt ev f d e t = proc_compare_main ev f d e op_gt t"
  "call_native addr_proc_cmpge ev f d e t = proc_compare_main ev f d e op_ge t"
  "call_native addr_proc_cmplt ev f d e t = proc_compare_main ev f d e op_lt t"
  "call_native addr_proc_cmple ev f d e t = proc_compare_main ev f d e op_le t"
  "call_native addr_proc_cmpeq ev f d e t = proc_compare_main ev f d e op_eq t"
  "call_native addr_proc_cmpne ev f d e t = proc_compare_main ev f d e op_ne t"
  by (simp_all add: call_native_def proc_cmpgt_def proc_cmpge_def proc_cmplt_def
        proc_cmple_def proc_cmpeq_def proc_cmpne_def)

lemma FindSymbol_global_compare:
  "FindSymbol (Suc 0) global_env ''>'' initial_state = Inr (Some (Some (Proc addr_proc_cmpgt)), initial_state)"
  "FindSymbol (Suc 0) global_env ''>='' initial_state = Inr (Some (Some (Proc addr_proc_cmpge)), initial_state)"
  "FindSymbol (Suc 0) global_env ''<'' initial_state = Inr (Some (Some (Proc addr_proc_cmplt)), initial_state)"
  "FindSymbol (Suc 0) global_env ''<='' initial_state = Inr (Some (Some (Proc addr_proc_cmple)), initial_state)"
  "FindSymbol (Suc 0) global_env ''eq'' initial_state = Inr (Some (Some (Proc addr_proc_cmpeq)), initial_state)"
  "FindSymbol (Suc 0) global_env ''ne'' initial_state = Inr (Some (Some (Proc addr_proc_cmpne)), initial_state)"
  by (simp_all add: initial_state_def global_env_def add_globals_Nil)

text \<open>
  Claim C2. In an environment where the six comparison symbols resolve to the native
  procedures, and with enough fuel: \<^verbatim>\<open>(< 1 2 3)\<close> evaluates to \<^verbatim>\<open>true_sexpr\<close> and \<^verbatim>\<open>(< 1 3 2)\<close> to
  \<^verbatim>\<open>false_sexpr\<close>; and for every chain of two or more integer operands each of
  \<^verbatim>\<open>> >= < <= eq ne\<close> evaluates to \<^verbatim>\<open>true_sexpr\<close> when every adjacent pair of operands
  satisfies the relation (on the signed values), and to \<^verbatim>\<open>false_sexpr\<close> otherwise. The state
  is unchanged.
\<close>

theorem comparison_chains:
  assumes gt: "FindSymbol k env ''>'' st = Inr (Some (Some (Proc addr_proc_cmpgt)), st)"
    and ge: "FindSymbol k env ''>='' st = Inr (Some (Some (Proc addr_proc_cmpge)), st)"
    and lt: "FindSymbol k env ''<'' st = Inr (Some (Some (Proc addr_proc_cmplt)), st)"
    and le: "FindSymbol k env ''<='' st = Inr (Some (Some (Proc addr_proc_cmple)), st)"
    and eq: "FindSymbol k env ''eq'' st = Inr (Some (Some (Proc addr_proc_cmpeq)), st)"
    and ne: "FindSymbol k env ''ne'' st = Inr (Some (Some (Proc addr_proc_cmpne)), st)"
  shows "eval (Suc (k + 2 + j)) (call_form ''<'' 1 [2, 3]) env st = Inr (Some true_sexpr, st)
    \<and> eval (Suc (k + 2 + j)) (call_form ''<'' 1 [3, 2]) env st = Inr (Some false_sexpr, st)
    \<and> eval (Suc (k + length (y # ys) + j)) (call_form ''>'' x (y # ys)) env st
        = Inr (Some (if adjacent_pairs_hold (\<lambda>a b. sint a > sint b) x (y # ys)
                     then true_sexpr else false_sexpr), st)
    \<and> eval (Suc (k + length (y # ys) + j)) (call_form ''>='' x (y # ys)) env st
        = Inr (Some (if adjacent_pairs_hold (\<lambda>a b. sint a \<ge> sint b) x (y # ys)
                     then true_sexpr else false_sexpr), st)
    \<and> eval (Suc (k + length (y # ys) + j)) (call_form ''<'' x (y # ys)) env st
        = Inr (Some (if adjacent_pairs_hold (\<lambda>a b. sint a < sint b) x (y # ys)
                     then true_sexpr else false_sexpr), st)
    \<and> eval (Suc (k + length (y # ys) + j)) (call_form ''<='' x (y # ys)) env st
        = Inr (Some (if adjacent_pairs_hold (\<lambda>a b. sint a \<le> sint b) x (y # ys)
                     then true_sexpr else false_sexpr), st)
    \<and> eval (Suc (k + length (y # ys) + j)) (call_form ''eq'' x (y # ys)) env st
        = Inr (Some (if adjacent_pairs_hold (\<lambda>a b. a = b) x (y # ys)
                     then true_sexpr else false_sexpr), st)
    \<and> eval (Suc (k + length (y # ys) + j)) (call_form ''ne'' x (y # ys)) env st
        = Inr (Some (if adjacent_pairs_hold (\<lambda>a b. a \<noteq> b) x (y # ys)
                     then true_sexpr else false_sexpr), st)"
proof -
  have ops: "op_gt = (\<lambda>a b. sint a > sint b)" "op_ge = (\<lambda>a b. sint a \<ge> sint b)"
    "op_lt = (\<lambda>a b. sint a < sint b)" "op_le = (\<lambda>a b. sint a \<le> sint b)"
    "op_eq = (\<lambda>a b. a = b)" "op_ne = (\<lambda>a b. a \<noteq> b)"
    by (simp_all add: fun_eq_iff op_gt_def op_ge_def op_lt_def op_le_def op_eq_def op_ne_def)
  have 1: "eval (Suc (k + 2 + j)) (call_form ''<'' 1 [2, 3]) env st = Inr (Some true_sexpr, st)"
    using eval_compare_chain [OF lt _ _ native_compare(3), of "[2, 3]" j 1]
    by (simp add: op_lt_def)
  have 2: "eval (Suc (k + 2 + j)) (call_form ''<'' 1 [3, 2]) env st = Inr (Some false_sexpr, st)"
    using eval_compare_chain [OF lt _ _ native_compare(3), of "[3, 2]" j 1]
    by (simp add: op_lt_def)
  note 3 = eval_compare_chain [OF gt _ _ native_compare(1), of "y # ys" j x, unfolded ops]
  note 4 = eval_compare_chain [OF ge _ _ native_compare(2), of "y # ys" j x, unfolded ops]
  note 5 = eval_compare_chain [OF lt _ _ native_compare(3), of "y # ys" j x, unfolded ops]
  note 6 = eval_compare_chain [OF le _ _ native_compare(4), of "y # ys" j x, unfolded ops]
  note 7 = eval_compare_chain [OF eq _ _ native_compare(5), of "y # ys" j x, unfolded ops]
  note 8 = eval_compare_chain [OF ne _ _ native_compare(6), of "y # ys" j x, unfolded ops]
  show ?thesis
    using 1 2 3 4 5 6 7 8 by simp
qed

theorem comparison_chains_witness:
  "eval (Suc (Suc (Suc (Suc 0)))) (call_form ''<'' 1 [2, 3]) global_env initial_state
      = Inr (Some true_sexpr, initial_state)
   \<and> eval (Suc (Suc (Suc (Suc 0)))) (call_form ''<'' 1 [3, 2]) global_env initial_state
      = Inr (Some false_sexpr, initial_state)
   \<and> eval (Suc (Suc (Suc (Suc 0)))) (call_form ''>'' 5 [- 1, - 2]) global_env initial_state
      = Inr (Some true_sexpr, initial_state)
   \<and> eval (Suc (Suc (Suc (Suc 0)))) (call_form ''>='' 5 [5, 6]) global_env initial_state
      = Inr (Some false_sexpr, initial_state)
   \<and> eval (Suc (Suc (Suc (Suc 0)))) (call_form ''<='' 5 [5, 6]) global_env initial_state
      = Inr (Some true_sexpr, initial_state)
   \<and> eval (Suc (Suc (Suc (Suc 0)))) (call_form ''eq'' 5 [5, 6]) global_env initial_state
      = Inr (Some false_sexpr, initial_state)
   \<and> eval (Suc (Suc (Suc (Suc 0)))) (call_form ''ne'' 1 [2, 1]) global_env initial_state
      = Inr (Some true_sexpr, initial_state)"
  using comparison_chains [OF FindSymbol_global_compare, of 0 "- 1" "[- 2]" 5]
    comparison_chains [OF FindSymbol_global_compare, of 0 5 "[6]" 5]
    comparison_chains [OF FindSymbol_global_compare, of 0 2 "[1]" 1]
  by simp


section \<open>Assignment to an unbound name\<close>

lemma FindSymbol_global_forms:
  "FindSymbol (Suc 0) global_env ''if'' initial_state = Inr (Some (Some (Proc addr_eval_if)), initial_state)"
  "FindSymbol (Suc 0) global_env ''setq'' initial_state = Inr (Some (Some (Proc addr_eval_setq)), initial_state)"
  "FindSymbol (Suc 0) global_env ''define'' initial_state = Inr (Some (Some (Proc addr_eval_define)), initial_state)"
  "FindSymbol (Suc 0) global_env ''car'' initial_state = Inr (Some (Some (Proc addr_eval_car)), initial_state)"
  "FindSymbol (Suc 0) global_env ''cdr'' initial_state = Inr (Some (Some (Proc addr_eval_cdr)), initial_state)"
  by (simp_all add: initial_state_def global_env_def add_globals_Nil)

lemma UpdateSymbol_unbound:
  "unbound_in_chain d st env s \<Longrightarrow> UpdateSymbol (d + j) env s v False st = Inr (False, st)"
proof (induction d arbitrary: env)
  case 0
  then show ?case by simp
next
  case (Suc d)
  then show ?case
    by (auto split: option.splits)
qed

lemma eval_set_unbound:
  assumes "unbound_in_chain d st env s"
  shows "eval_set (eval (Suc m)) (d + j) (Some (Cells (Some (Symbol s)) (Some (Integer n)))) env False st
           = Inr (Some nil_sexpr,
                  st\<lparr>cout := cout st @ [''Variable '' @ [CHR 0x27] @ s @ [CHR 0x27] @ '' does not exist.'']\<rparr>)"
  using UpdateSymbol_unbound [OF assms, of j "Some (Integer n)"]
  by (simp add: eval_set_def hasTwoOperands_def)

text \<open>
  Claim C4. Where \<^verbatim>\<open>setq\<close> resolves to the native procedure and the symbol \<open>s\<close> is bound in no
  environment of the chain, \<^verbatim>\<open>(setq s n)\<close> (for \<^verbatim>\<open>(setq y 5)\<close>: \<open>s = ''y''\<close>, \<open>n = 5\<close>) evaluates to
  \<^verbatim>\<open>nil_sexpr\<close>. The only change of the state is the diagnostic line written to \<^verbatim>\<open>std::cout\<close>:
  the store of environments is the same, so no binding is created at any scope.
\<close>

theorem setq_unbound:
  assumes find: "FindSymbol k env ''setq'' st = Inr (Some (Some (Proc addr_eval_setq)), st)"
    and unbound: "unbound_in_chain d st env s"
  shows "eval (Suc (k + d + j)) (setq_form s n) env st
           = Inr (Some nil_sexpr,
                  st\<lparr>cout := cout st @ [''Variable '' @ [CHR 0x27] @ s @ [CHR 0x27] @ '' does not exist.'']\<rparr>)"
proof -
  obtain k' where k: "k = Suc k'"
    using find by (rule FindSymbol_fuel_Suc)
  have fuel: "k + (d + j) = Suc (k' + d + j)" "k + (d + j) = d + (k + j)"
    by (simp_all add: k)
  have "eval (Suc (k + (d + j))) (setq_form s n) env st
          = eval_set (eval (k + (d + j))) (k + (d + j))
              (Some (Cells (Some (Symbol s)) (Some (Integer n)))) env False st"
    unfolding setq_form_def
    by (subst eval_native_call [OF find]) (simp_all add: call_native_def eval_setq_def)
  also have "\<dots> = eval_set (eval (Suc (k' + d + j))) (d + (k + j))
              (Some (Cells (Some (Symbol s)) (Some (Integer n)))) env False st"
    by (simp add: k ac_simps)
  also note eval_set_unbound [OF unbound]
  finally show ?thesis
    by (simp add: add.assoc)
qed

theorem setq_unbound_witness:
  "eval (Suc (Suc (Suc (Suc (Suc 0))))) (setq_form ''y'' 5) 1
     (initial_state\<lparr>heap := heap initial_state
         @ [(1, \<lparr>env_map = [(''x'', Some (Integer 1))], outer_env = Some global_env\<rparr>)]\<rparr>)
   = Inr (Some nil_sexpr,
          initial_state\<lparr>heap := heap initial_state
              @ [(1, \<lparr>env_map = [(''x'', Some (Integer 1))], outer_env = Some global_env\<rparr>)],
            cout := [''Variable '' @ [CHR 0x27] @ ''y'' @ [CHR 0x27] @ '' does not exist.'']\<rparr>)"
proof -
  let ?st = "initial_state\<lparr>heap := heap initial_state
         @ [(1, \<lparr>env_map = [(''x'', Some (Integer 1))], outer_env = Some global_env\<rparr>)]\<rparr>"
  have find: "FindSymbol (Suc (Suc 0)) 1 ''setq'' ?st = Inr (Some (Some (Proc addr_eval_setq)), ?st)"
    by (simp add: initial_state_def global_env_def add_globals_Nil)
  have unbound: "unbound_in_chain (Suc (Suc 0)) ?st 1 ''y''"
    by (simp add: initial_state_def global_env_def add_globals_Nil)
  show ?thesis
    using setq_unbound [OF find unbound, of 0 5]
    by (simp add: initial_state_def)
qed


section \<open>Closures and rebinding\<close>

lemmas evaluation_simps =
  isAtom_def isSymbol_def nil_sexpr_def bad_sexpr_def false_sexpr_def true_sexpr_def
  eval_proc_def call_native_def eval_define_def eval_setq_def eval_set_def hasTwoOperands_def
  initial_state_def global_env_def add_globals_Nil store_binding_def makeLambda_def
  eval_lambda_def Let_def

text \<open>
  Claim C3, as the code has it. \<^verbatim>\<open>define\<close> overwrites the binding of \<^verbatim>\<open>x\<close> in place and a
  closure holds the address of its defining environment: after \<^verbatim>\<open>(define x a)\<close>,
  \<^verbatim>\<open>(define f (lambda () x))\<close> and \<^verbatim>\<open>(define x b)\<close> in the global environment, the call of \<^verbatim>\<open>f\<close>
  returns the later value \<open>b\<close>. It returns \<open>b\<close> also when called from the body of another
  closure whose own parameter is named \<^verbatim>\<open>x\<close>: the lookup goes through the defining
  environment, not through the environment of the call.
\<close>

theorem closure_sees_rebinding:
  "result_value (eval_sequence (Suc (Suc (Suc (Suc j))))
      [define_form ''x'' a, define_f_form, define_form ''x'' b, call_f_form]
      global_env initial_state) = Inr (Some (Integer b))
   \<and> result_value (eval_sequence (Suc (Suc (Suc (Suc (Suc (Suc j))))))
      [define_form ''x'' a, define_f_form, define_form ''x'' b, define_g_form, call_g_form c d]
      global_env initial_state) = Inr (Some (Integer b))"
proof -
  let ?globals = "add_globals []"
  let ?fc = "Lambda None (Some (Symbol ''x'')) 0"
  let ?st1 = "initial_state\<lparr>heap := [(0, \<lparr>env_map = ?globals @ [(''x'', Some (Integer a))], outer_env = None\<rparr>)]\<rparr>"
  let ?st2 = "initial_state\<lparr>heap := [(0, \<lparr>env_map = ?globals @ [(''x'', Some (Integer a)), (''f'', Some ?fc)], outer_env = None\<rparr>)]\<rparr>"
  let ?st3 = "initial_state\<lparr>heap := [(0, \<lparr>env_map = ?globals @ [(''x'', Some (Integer b)), (''f'', Some ?fc)], outer_env = None\<rparr>)]\<rparr>"
  have s1: "\<And>n. eval (Suc (Suc (Suc n))) (define_form ''x'' a) global_env initial_state = Inr (Some (Integer a), ?st1)"
    by (simp add: define_form_def evaluation_simps)
  have s2: "\<And>n. eval (Suc (Suc (Suc n))) define_f_form global_env ?st1 = Inr (Some ?fc, ?st2)"
    by (simp add: define_f_form_def evaluation_simps)
  have s3: "\<And>n. eval (Suc (Suc (Suc n))) (define_form ''x'' b) global_env ?st2 = Inr (Some (Integer b), ?st3)"
    by (simp add: define_form_def evaluation_simps)
  have s4: "\<And>n. result_value (eval (Suc (Suc (Suc (Suc n)))) call_f_form global_env ?st3) = Inr (Some (Integer b))"
    by (simp add: call_f_form_def result_value_def evaluation_simps)
  have A: "result_value (eval_sequence (Suc (Suc (Suc (Suc j))))
      [define_form ''x'' a, define_f_form, define_form ''x'' b, call_f_form]
      global_env initial_state) = Inr (Some (Integer b))"
    using s4 by (simp only: eval_sequence.simps s1 s2 s3 sum.case prod.case)
  let ?gc = "Lambda (Some (Cells (Some (Symbol ''x'')) (Some (Symbol ''y''))))
              (Some (Cells (Some (Symbol ''f'')) (Some (Integer 0)))) 0"
  let ?st4 = "initial_state\<lparr>heap := [(0, \<lparr>env_map = ?globals @ [(''x'', Some (Integer b)), (''f'', Some ?fc), (''g'', Some ?gc)], outer_env = None\<rparr>)]\<rparr>"
  have s5: "\<And>n. eval (Suc (Suc (Suc n))) define_g_form global_env ?st3 = Inr (Some ?gc, ?st4)"
    by (simp add: define_g_form_def evaluation_simps)
  have s6: "\<And>n. result_value (eval (Suc (Suc (Suc (Suc (Suc (Suc n)))))) (call_g_form c d) global_env ?st4) = Inr (Some (Integer b))"
    by (simp add: call_g_form_def result_value_def evaluation_simps)
  have B: "result_value (eval_sequence (Suc (Suc (Suc (Suc (Suc (Suc j))))))
      [define_form ''x'' a, define_f_form, define_form ''x'' b, define_g_form, call_g_form c d]
      global_env initial_state) = Inr (Some (Integer b))"
    using s6 by (simp only: eval_sequence.simps s1 s2 s3 s5 sum.case prod.case)
  from A B show ?thesis ..
qed


text \<open>
  Claim C3 as stated (the call returns 1) fails: the call of \<^verbatim>\<open>f\<close> returns 2. The text
  \<^verbatim>\<open>(f)\<close> itself is read by \<^verbatim>\<open>makeLispTree\<close> as the bare symbol \<^verbatim>\<open>f\<close>, whose value is the
  closure.
\<close>

theorem closure_returns_one_counterexample:
  "result_value (eval_sequence (Suc (Suc (Suc (Suc 0))))
      [define_form ''x'' 1, define_f_form, define_form ''x'' 2, call_f_form]
      global_env initial_state) = Inr (Some (Integer 2))
   \<and> result_value (eval_sequence (Suc (Suc (Suc (Suc 0))))
      [define_form ''x'' 1, define_f_form, define_form ''x'' 2, Some (Symbol ''f'')]
      global_env initial_state) = Inr (Some (Lambda None (Some (Symbol ''x'')) 0))"
  by (simp add: define_form_def define_f_form_def call_f_form_def result_value_def evaluation_simps)

section \<open>The tree builder\<close>

lemma isdigit_paren [simp]: "\<not> isdigit CHR ''(''" "\<not> isdigit CHR '')''"
  by (simp_all add: isdigit_def)

declare makeLispObject.simps [simp del] makeLispTree.simps [simp del]

lemma makeLispObject_Nil: "makeLispObject [] = Inr (None, [])"
  by (subst makeLispObject.simps) simp

lemma makeLispObject_atom:
  "at0 t \<noteq> CHR ''('' \<Longrightarrow> makeLispObject (t # ts) = Inr (atom_cell t, t # ts)"
  by (subst makeLispObject.simps) (simp add: atom_cell_def)

lemma makeLispObject_open:
  "at0 t = CHR ''('' \<Longrightarrow> makeLispObject (t # ts) = makeLispTree (t # ts)"
  by (subst makeLispObject.simps) simp

lemma makeLispTree_end: "makeLispTree [] = Inl EndOfTokens" "makeLispTree [cur] = Inl EndOfTokens"
  by (subst makeLispTree.simps, simp)+

lemma makeLispTree_close:
  "at0 t = CHR '')'' \<Longrightarrow> makeLispTree (cur # t # ts) = Inr (None, t # ts)"
  by (subst makeLispTree.simps) simp

lemma makeLispTree_step:
  assumes "at0 t \<noteq> CHR '')''"
    and "makeLispObject (t # ts) = Inr (car_val, ts1)"
    and "makeLispTree ts1 = Inr (cdr_val, ts2)"
  shows "makeLispTree (cur # t # ts)
           = Inr (if cdr_val = None then car_val else Some (Cells car_val cdr_val), ts2)"
  by (subst makeLispTree.simps) (simp add: assms)

lemma closes_tree:
  "closes d ts \<Longrightarrow>
     \<exists>v c q. makeLispTree (cur # ts) = Inr (v, c # q) \<and> length q < length ts
       \<and> (0 < d \<longrightarrow> closes (d - 1) q)"
proof (induction "length ts" arbitrary: ts d cur rule: less_induct)
  case less
  from less.prems obtain t ts' where ts: "ts = t # ts'"
    by (cases ts) auto
  consider (close) "at0 t = CHR '')''" | (lparen) "at0 t = CHR ''(''"
    | (atom) "at0 t \<noteq> CHR '')''" "at0 t \<noteq> CHR ''(''"
    by blast
  then show ?case
  proof cases
    case close
    then show ?thesis
      using less.prems by (auto simp: ts makeLispTree_close)
  next
    case atom
    then have cl: "closes d ts'"
      using less.prems by (simp add: ts)
    from less.hyps [of ts' d t] cl obtain v c q
      where r: "makeLispTree (t # ts') = Inr (v, c # q)" "length q < length ts'"
        "0 < d \<longrightarrow> closes (d - 1) q"
      by (auto simp: ts)
    show ?thesis
      unfolding ts
      using makeLispTree_step [OF atom(1) makeLispObject_atom [OF atom(2)] r(1), of cur] r(2,3)
      by auto
  next
    case lparen
    then have ne: "at0 t \<noteq> CHR '')''" by simp
    have cl: "closes (Suc d) ts'"
      using less.prems lparen by (simp add: ts)
    from less.hyps [of ts' "Suc d" t] cl obtain v1 c1 q1
      where r1: "makeLispTree (t # ts') = Inr (v1, c1 # q1)" "length q1 < length ts'"
        "closes d q1"
      by (auto simp: ts)
    from less.hyps [of q1 d c1] r1(2,3) obtain v c q
      where r2: "makeLispTree (c1 # q1) = Inr (v, c # q)" "length q < length q1"
        "0 < d \<longrightarrow> closes (d - 1) q"
      by (auto simp: ts)
    have obj: "makeLispObject (t # ts') = Inr (v1, c1 # q1)"
      using r1(1) by (simp add: makeLispObject_open [OF lparen])
    show ?thesis
      unfolding ts
      using makeLispTree_step [OF ne obj r2(1), of cur] r1(2) r2(2,3)
      by auto
  qed
qed

lemma nparens_closes: "nparens ts + int d < 0 \<Longrightarrow> closes d ts"
proof (induction ts arbitrary: d)
  case Nil
  then show ?case by simp
next
  case (Cons t ts)
  show ?case
  proof (cases "at0 t = CHR '')''")
    case True
    show ?thesis
    proof (cases d)
      case 0
      then show ?thesis using True by simp
    next
      case (Suc d')
      have "nparens ts + int d' < 0"
        using Cons.prems True Suc by simp
      then show ?thesis
        using Cons.IH [of d'] True Suc by simp
    qed
  next
    case False
    show ?thesis
    proof (cases "at0 t = CHR ''(''")
      case True
      have "nparens ts + int (Suc d) < 0"
        using Cons.prems True by simp
      then show ?thesis
        using Cons.IH [of "Suc d"] True by simp
    next
      case False': False
      then show ?thesis
        using Cons.prems Cons.IH [of d] False by simp
    qed
  qed
qed

text \<open>
  Claim C10. When the tokens that start with \<^verbatim>\<open>(\<close> are as many as those that start with
  \<^verbatim>\<open>)\<close>, the count that \<^verbatim>\<open>repl\<close> checks, \<^verbatim>\<open>makeLispObject\<close> from the first token returns a
  tree and a position: the increment in \<^verbatim>\<open>makeLispTree\<close> never steps to the end of the
  tokens.
\<close>

theorem balanced_parse_total:
  assumes "nparens tokens = 0"
  shows "\<exists>v rest. makeLispObject tokens = Inr (v, rest)"
proof (cases tokens)
  case Nil
  then show ?thesis by (simp add: makeLispObject_Nil)
next
  case (Cons t ts)
  show ?thesis
  proof (cases "at0 t = CHR ''(''")
    case True
    have "nparens ts + int 0 < 0"
      using assms True by (simp add: Cons)
    then have "closes 0 ts"
      by (rule nparens_closes)
    from closes_tree [OF this, of t] show ?thesis
      by (auto simp: Cons makeLispObject_open [OF True])
  next
    case False
    then show ?thesis
      by (simp add: Cons makeLispObject_atom)
  qed
qed

theorem balanced_parse_total_witness:
  "nparens [''('', ''+'', ''1'', ''('', ''*'', ''2'', ''3'', '')'', '')''] = 0
   \<and> (\<exists>v rest. makeLispObject [''('', ''+'', ''1'', ''('', ''*'', ''2'', ''3'', '')'', '')'']
          = Inr (v, rest))"
proof -
  have n: "nparens [''('', ''+'', ''1'', ''('', ''*'', ''2'', ''3'', '')'', '')''] = 0"
    by (simp add: at0_def)
  from n balanced_parse_total [OF n] show ?thesis ..
qed


lemma tokens_of_Cons: "\<exists>t ts. tokens_of s = t # ts \<and> (well_formed s \<longrightarrow> at0 t \<noteq> CHR '')'')"
  by (cases s) (auto simp: at0_def)

lemma makeLispTree_objects:
  assumes "\<And>s rest. s \<in> set xs \<Longrightarrow> well_formed s \<Longrightarrow>
             makeLispObject (tokens_of s @ rest) = Inr (value_of s, last (tokens_of s) # rest)"
    and "list_all well_formed xs"
  shows "makeLispTree (cur # concat (map tokens_of xs) @ '')'' # rest)
           = Inr (chain (map value_of xs), '')'' # rest)"
  using assms
proof (induction xs arbitrary: cur)
  case Nil
  show ?case
    by (simp add: makeLispTree_close at0_def)
next
  case (Cons x xs)
  let ?R = "concat (map tokens_of xs) @ '')'' # rest"
  obtain t ts where t: "tokens_of x = t # ts" "at0 t \<noteq> CHR '')''"
    using tokens_of_Cons [of x] Cons.prems(2) by auto
  have obj: "makeLispObject (t # ts @ ?R) = Inr (value_of x, last (tokens_of x) # ?R)"
    using Cons.prems(1) [of x ?R] Cons.prems(2) by (simp add: t)
  have tree: "makeLispTree (last (tokens_of x) # ?R) = Inr (chain (map value_of xs), '')'' # rest)"
    using Cons.IH [of "last (tokens_of x)"] Cons.prems by simp
  show ?case
    using makeLispTree_step [OF t(2) obj tree, of cur]
    by (simp add: t split: option.splits)
qed

lemma makeLispObject_tokens_of:
  "well_formed s \<Longrightarrow> makeLispObject (tokens_of s @ rest) = Inr (value_of s, last (tokens_of s) # rest)"
proof (induction s arbitrary: rest)
  case (Atom t)
  then show ?case
    by (simp add: makeLispObject_atom)
next
  case (List xs)
  have "makeLispTree (''('' # concat (map tokens_of xs) @ '')'' # rest)
          = Inr (chain (map value_of xs), '')'' # rest)"
    using List by (intro makeLispTree_objects) auto
  then show ?case
    by (simp add: makeLispObject_open at0_def)
qed

lemmas reader_simps =
  tokenize_def scan_token_def scan_number_eq at0_def EOINPUT_def isspace_def isprint_def
  isdigit_def isalpha_def isalnum_def ident_char_def isupper_def islower_def ops_def Let_def
  strtoll_def hex_prefix_def LLONG_MAX_def isxdigit_def digit_val_def to_lower_def tolower_def
  repl_read_def

lemma atom_cell_digit: "atom_cell ''1'' = Some (Integer 1)" "atom_cell ''2'' = Some (Integer 2)"
  "atom_cell ''3'' = Some (Integer 3)"
  by (simp_all add: atom_cell_def reader_simps)

lemma chain_None: "(chain vs = None) = list_all (\<lambda>v. v = None) vs"
  by (induction vs) (auto split: option.splits)

lemma value_of_None: "(value_of s = None) = reads_null s"
proof (induction s)
  case (Atom t)
  show ?case by (simp add: atom_cell_def)
next
  case (List xs)
  then show ?case
    by (simp add: chain_None list_all_iff)
qed

lemma chain_nested:
  assumes "l \<noteq> None" and "list_all (\<lambda>v. v = None) es"
  shows "chain (vs @ l # es) = nested vs l"
proof (induction vs)
  case Nil
  have "chain es = None"
    using assms(2) by (simp add: chain_None)
  then show ?case by simp
next
  case (Cons v vs)
  have "nested vs l \<noteq> None"
    using assms(1) by (cases vs) auto
  then show ?case
    using Cons by (auto split: option.splits)
qed

lemma tails_present_chain:
  "list_all tails_present vs \<Longrightarrow> tails_present (chain vs)"
  by (induction vs) (auto split: option.splits)

lemma tails_present_atom_cell: "tails_present (atom_cell t)"
  by (simp add: atom_cell_def)

lemma tails_present_value_of: "tails_present (value_of s)"
proof (induction s)
  case (Atom t)
  show ?case by (simp add: tails_present_atom_cell)
next
  case (List xs)
  then show ?case
    by (auto intro!: tails_present_chain simp: list_all_iff)
qed

lemma last_present:
  "list_all P xs \<or> (\<exists>ys l es. xs = ys @ l # es \<and> \<not> P l \<and> list_all P es)"
proof (induction xs rule: rev_induct)
  case Nil
  show ?case by simp
next
  case (snoc x xs)
  show ?case
  proof (cases "P x")
    case False
    then have "xs @ [x] = xs @ x # [] \<and> \<not> P x \<and> list_all P []" by simp
    then show ?thesis by blast
  next
    case True
    from snoc show ?thesis
    proof
      assume "list_all P xs"
      then show ?thesis using True by simp
    next
      assume "\<exists>ys l es. xs = ys @ l # es \<and> \<not> P l \<and> list_all P es"
      then obtain ys l es where "xs = ys @ l # es" "\<not> P l" "list_all P es" by blast
      then have "xs @ [x] = ys @ l # (es @ [x]) \<and> \<not> P l \<and> list_all P (es @ [x])"
        using True by simp
      then show ?thesis by blast
    qed
  qed
qed

lemma atom_cell_symbol: "atom_cell ''a'' = Some (Symbol ''a'')" "atom_cell ''b'' = Some (Symbol ''b'')"
  by (simp_all add: atom_cell_def reader_simps)

text \<open>
  Claim C8, as the code has it. The tree of an object is what \<^verbatim>\<open>makeLispObject\<close> returns
  for its tokens: the cell of an atom, and for a list the chain of the trees of its
  objects; the tree of \<^verbatim>\<open>()\<close> is \<^verbatim>\<open>nullptr\<close>, and the tree of a list of one object is the tree
  of that object. When the builder consumes \<^verbatim>\<open>(\<close>, two or more objects and the matching
  \<^verbatim>\<open>)\<close>, it leaves the position on that \<^verbatim>\<open>)\<close> and returns the chain of the objects' trees,
  made from the right by \<^verbatim>\<open>if (cdr == nullptr) return car; return new lisp_cell(car, cdr)\<close>:

  \<^item> The objects at the end of the list that read as \<^verbatim>\<open>nullptr\<close> leave no trace. The tree
    of the last object before them stands in the last \<^verbatim>\<open>cdr\<close> itself, and the trees of the
    objects before it are, in order, the heads of \<^verbatim>\<open>lisp_cells\<close> nested to the right.

  \<^item> When every object reads as \<^verbatim>\<open>nullptr\<close> the result is \<^verbatim>\<open>nullptr\<close>. One of the two cases
    holds of every list.

  \<^item> No \<^verbatim>\<open>lisp_cells\<close> with an absent \<^verbatim>\<open>cdr\<close> is built.

  Reading \<^verbatim>\<open>(1 2 3)\<close> gives the pair of \<open>1\<close> and the pair of \<open>2\<close> and \<open>3\<close>, \<^verbatim>\<open>(a b ())\<close> the pair
  of \<open>a\<close> and \<open>b\<close>, \<^verbatim>\<open>(a ())\<close> the symbol \<open>a\<close>, and \<^verbatim>\<open>(() ())\<close> gives \<^verbatim>\<open>nullptr\<close>.
\<close>

theorem tree_builder_chain:
  assumes "list_all well_formed (x # y # zs)"
  shows "makeLispObject (''('' # concat (map tokens_of (x # y # zs)) @ '')'' # rest)
           = Inr (chain (map value_of (x # y # zs)), '')'' # rest)
    \<and> (x # y # zs = xs @ l # es \<and> \<not> reads_null l \<and> list_all reads_null es \<longrightarrow>
         value_of l \<noteq> None
         \<and> makeLispObject (''('' # concat (map tokens_of (x # y # zs)) @ '')'' # rest)
             = Inr (nested (map value_of xs) (value_of l), '')'' # rest))
    \<and> (list_all reads_null (x # y # zs) \<longrightarrow>
         makeLispObject (''('' # concat (map tokens_of (x # y # zs)) @ '')'' # rest)
           = Inr (None, '')'' # rest))
    \<and> (list_all reads_null (x # y # zs)
        \<or> (\<exists>xs l es. x # y # zs = xs @ l # es \<and> \<not> reads_null l \<and> list_all reads_null es))
    \<and> (well_formed s \<longrightarrow>
         makeLispObject (tokens_of s @ rest) = Inr (value_of s, last (tokens_of s) # rest))
    \<and> (value_of s = None) = reads_null s
    \<and> value_of (List []) = None
    \<and> value_of (List [s]) = value_of s
    \<and> tails_present (chain (map value_of (x # y # zs)))
    \<and> chain [a, Some b] = Some (Cells a (Some b))
    \<and> chain [a, b', Some c] = Some (Cells a (Some (Cells b' (Some c))))
    \<and> (chain (v # vs) = (case chain vs of None \<Rightarrow> v | Some d \<Rightarrow> Some (Cells v (Some d))))"
proof -
  let ?objs = "x # y # zs"
  have "well_formed (List ?objs)"
    using assms by simp
  from makeLispObject_tokens_of [OF this, of rest]
  have 1: "makeLispObject (''('' # concat (map tokens_of ?objs) @ '')'' # rest)
           = Inr (chain (map value_of ?objs), '')'' # rest)"
    by simp
  have 2: "value_of l \<noteq> None
         \<and> makeLispObject (''('' # concat (map tokens_of ?objs) @ '')'' # rest)
             = Inr (nested (map value_of xs) (value_of l), '')'' # rest)"
    if h: "?objs = xs @ l # es \<and> \<not> reads_null l \<and> list_all reads_null es"
  proof -
    have l: "value_of l \<noteq> None"
      using h by (simp add: value_of_None)
    have es: "list_all (\<lambda>v. v = None) (map value_of es)"
      using h by (simp add: list_all_iff value_of_None)
    have "map value_of ?objs = map value_of xs @ value_of l # map value_of es"
      using h by simp
    then have "chain (map value_of ?objs) = nested (map value_of xs) (value_of l)"
      using chain_nested [OF l es, of "map value_of xs"] by simp
    then show ?thesis
      using l 1 by simp
  qed
  have 3: "makeLispObject (''('' # concat (map tokens_of ?objs) @ '')'' # rest) = Inr (None, '')'' # rest)"
    if h: "list_all reads_null ?objs"
  proof -
    have "list_all (\<lambda>v. v = None) (map value_of ?objs)"
      using h by (simp add: list_all_iff value_of_None)
    then have "chain (map value_of ?objs) = None"
      by (simp only: chain_None)
    then show ?thesis
      using 1 by simp
  qed
  have 4: "tails_present (chain (map value_of ?objs))"
    by (intro tails_present_chain) (simp add: list_all_iff tails_present_value_of)
  have 5: "value_of (List []) = None" "value_of (List [s]) = value_of s"
    by (simp_all split: option.splits)
  have 6: "chain [a, Some b] = Some (Cells a (Some b))"
    "chain [a, b', Some c] = Some (Cells a (Some (Cells b' (Some c))))"
    "chain (v # vs) = (case chain vs of None \<Rightarrow> v | Some d \<Rightarrow> Some (Cells v (Some d)))"
    by simp_all
  show ?thesis
    using 2 3
    by (intro conjI impI 1 4 5 6 last_present value_of_None makeLispObject_tokens_of) blast+
qed

theorem tree_builder_chain_witness:
  "list_all well_formed [Atom ''1'', Atom ''2'', Atom ''3'']
   \<and> \<not> reads_null (Atom ''3'') \<and> list_all reads_null []
   \<and> makeLispObject [''('', ''1'', ''2'', ''3'', '')'']
       = Inr (Some (Cells (Some (Integer 1)) (Some (Cells (Some (Integer 2)) (Some (Integer 3))))), ['')''])
   \<and> list_all well_formed [Atom ''a'', Atom ''b'', List []]
   \<and> \<not> reads_null (Atom ''b'') \<and> list_all reads_null [List []]
   \<and> makeLispObject [''('', ''a'', ''b'', ''('', '')'', '')'']
       = Inr (Some (Cells (Some (Symbol ''a'')) (Some (Symbol ''b''))), ['')''])
   \<and> list_all well_formed [List [], List []]
   \<and> list_all reads_null [List [], List []]
   \<and> makeLispObject [''('', ''('', '')'', ''('', '')'', '')''] = Inr (None, ['')''])
   \<and> well_formed (List [Atom ''a'', List []])
   \<and> makeLispObject [''('', ''a'', ''('', '')'', '')''] = Inr (Some (Symbol ''a''), ['')''])"
proof -
  have wf: "list_all well_formed [Atom ''1'', Atom ''2'', Atom ''3'']"
    "list_all well_formed [Atom ''a'', Atom ''b'', List []]"
    "list_all well_formed [List [], List []]"
    "well_formed (List [Atom ''a'', List []])"
    by (simp_all add: at0_def)
  show ?thesis
    using wf tree_builder_chain [OF wf(1), where xs = "[Atom ''1'', Atom ''2'']" and l = "Atom ''3''"
        and es = "[]" and rest = "[]" and s = "Atom ''1''"]
      tree_builder_chain [OF wf(2), where xs = "[Atom ''a'']" and l = "Atom ''b''"
        and es = "[List []]" and rest = "[]" and s = "Atom ''1''"]
      tree_builder_chain [OF wf(3), where xs = "[]" and l = "List []"
        and es = "[]" and rest = "[]" and s = "List [Atom ''a'', List []]"]
    by (simp add: atom_cell_digit atom_cell_symbol)
qed

text \<open>
  Claim C8 as stated fails: the tree read from \<^verbatim>\<open>(1 2 3)\<close> is not the proper list of 1, 2
  and 3, whose last tail is absent.
\<close>

theorem proper_list_counterexample:
  "repl_read ''(1 2 3)''
     = Inr (Some (Some (Cells (Some (Integer 1)) (Some (Cells (Some (Integer 2)) (Some (Integer 3))))),
                  ['')'']))
   \<and> Some (Cells (Some (Integer 1)) (Some (Cells (Some (Integer 2)) (Some (Integer 3)))))
       \<noteq> proper_list [Some (Integer 1), Some (Integer 2), Some (Integer 3)]"
proof -
  have t: "tokenize ''(1 2 3)'' = Inr [''('', ''1'', ''2'', ''3'', '')'']"
    by (simp add: reader_simps)
  have p: "makeLispObject [''('', ''1'', ''2'', ''3'', '')'']
       = Inr (Some (Cells (Some (Integer 1)) (Some (Cells (Some (Integer 2)) (Some (Integer 3))))), ['')''])"
    using makeLispObject_tokens_of [of "List [Atom ''1'', Atom ''2'', Atom ''3'']" "[]"]
    by (simp add: atom_cell_digit at0_def)
  show ?thesis
    by (simp add: repl_read_def t p at0_def)
qed

section \<open>The special form \<^verbatim>\<open>quote\<close>\<close>

lemma eval_quote: "eval (Suc n) (quote_form tail) env st = Inr (tail, st)"
  by (simp add: quote_form_def isAtom_def isSymbol_def nil_sexpr_def bad_sexpr_def)

lemma read_examples:
  "repl_read ''(1 2 3)'' = Inr (Some (Some (operands 1 [2, 3]), ['')'']))"
  "repl_read ''(2 3)'' = Inr (Some (Some (operands 2 [3]), ['')'']))"
  "repl_read ''(quote (1 2 3))'' = Inr (Some (quote_form (Some (operands 1 [2, 3])), ['')'']))"
  "repl_read ''(car (quote (1 2 3)))''
     = Inr (Some (Some (Cells (Some (Symbol ''car'')) (quote_form (Some (operands 1 [2, 3])))), ['')'']))"
  "repl_read ''(cdr (quote (1 2 3)))''
     = Inr (Some (Some (Cells (Some (Symbol ''cdr'')) (quote_form (Some (operands 1 [2, 3])))), ['')'']))"
  by (simp_all add: reader_simps quote_form_def makeLispObject.simps makeLispTree.simps)

text \<open>
  Claim C6. \<^verbatim>\<open>quote\<close> returns its tail as it is, in every environment and state and without
  a change of the state. The text \<^verbatim>\<open>(quote (1 2 3))\<close> is read as the pair of \<^verbatim>\<open>quote\<close> and the
  tree of \<^verbatim>\<open>(1 2 3)\<close>, and evaluates to that tree; \<^verbatim>\<open>(car (quote (1 2 3)))\<close> evaluates to the
  integer 1 and \<^verbatim>\<open>(cdr (quote (1 2 3)))\<close> to the tree that \<^verbatim>\<open>(2 3)\<close> is read as. Lists are the
  trees that the reader builds for them.
\<close>

theorem quote_verbatim:
  "eval (Suc n) (quote_form tail) env st = Inr (tail, st)
   \<and> repl_read ''(quote (1 2 3))'' = Inr (Some (quote_form (Some (operands 1 [2, 3])), ['')'']))
   \<and> repl_read ''(1 2 3)'' = Inr (Some (Some (operands 1 [2, 3]), ['')'']))
   \<and> eval (Suc n) (quote_form (Some (operands 1 [2, 3]))) global_env initial_state
       = Inr (Some (operands 1 [2, 3]), initial_state)
   \<and> repl_read ''(car (quote (1 2 3)))''
       = Inr (Some (Some (Cells (Some (Symbol ''car'')) (quote_form (Some (operands 1 [2, 3])))), ['')'']))
   \<and> eval (Suc (Suc n)) (Some (Cells (Some (Symbol ''car'')) (quote_form (Some (operands 1 [2, 3])))))
         global_env initial_state
       = Inr (Some (Integer 1), initial_state)
   \<and> repl_read ''(cdr (quote (1 2 3)))''
       = Inr (Some (Some (Cells (Some (Symbol ''cdr'')) (quote_form (Some (operands 1 [2, 3])))), ['')'']))
   \<and> eval (Suc (Suc n)) (Some (Cells (Some (Symbol ''cdr'')) (quote_form (Some (operands 1 [2, 3])))))
         global_env initial_state
       = Inr (Some (operands 2 [3]), initial_state)
   \<and> repl_read ''(2 3)'' = Inr (Some (Some (operands 2 [3]), ['')'']))"
proof -
  have car: "eval (Suc (Suc n)) (Some (Cells (Some (Symbol ''car'')) (quote_form (Some (operands 1 [2, 3])))))
         global_env initial_state = Inr (Some (Integer 1), initial_state)"
    using eval_native_call [OF FindSymbol_global_forms(4), where j = n]
    by (simp add: call_native_def eval_car_def eval_quote [unfolded quote_form_def] isAtom_def quote_form_def del: eval.simps)
  have cdr: "eval (Suc (Suc n)) (Some (Cells (Some (Symbol ''cdr'')) (quote_form (Some (operands 1 [2, 3])))))
         global_env initial_state = Inr (Some (operands 2 [3]), initial_state)"
    using eval_native_call [OF FindSymbol_global_forms(5), where j = n]
    by (simp add: call_native_def eval_cdr_def eval_quote [unfolded quote_form_def] isAtom_def quote_form_def del: eval.simps)
  show ?thesis
    using car cdr by (simp only: eval_quote read_examples simp_thms)
qed

section \<open>The special form \<^verbatim>\<open>if\<close>\<close>






section \<open>Reading back what the printer writes\<close>

declare show_nat.simps [simp del]

declare tokens_loop.simps [simp del]

















lemma at0_Cons: "at0 (c # s) = c"
  by (simp add: at0_def)
































end
